theory Spec2Isabelle
  imports Complex_Main "HOL-Library.Log_Nat"
begin

section \<open>Case deduplication and linking pipeline of TeslaJustice\<close>

text \<open>
  A shallow embedding of \<^verbatim>\<open>caseManagement.ts\<close>: the keyword classifiers, the
  templated headline and summary, the similarity score of \<^verbatim>\<open>findPotentialDuplicates\<close>
  and the decision procedure \<^verbatim>\<open>createCaseFromSocialMedia\<close> with its repository calls.

  Conventions of the embedding.
  \<^item> The similarity score is embedded twice. \<open>similarityScore_double\<close> is the callback in
    the arithmetic of the code, IEEE doubles with every operation rounded to nearest; the
    equation between the score and the weighted sum is proved of it. \<open>similarityScore\<close>
    is the same expression in exact arithmetic, with the weights \<open>0.3\<close>, \<open>0.1\<close>, \<open>0.2\<close>
    and the thresholds \<open>0.85\<close>, \<open>0.6\<close> as the decimal fractions the source writes; the
    decision procedure and the properties of order and bounds are stated of it. The two
    values differ by the rounding errors, so an exact score that equals a threshold can
    lie on the other side of it in the code: three exact terms \<open>0.3 + 0.1 + 0.2\<close> give
    \<open>0.6\<close>, the doubles give 0.6000000000000001.
  \<^item> Strings are byte lists; \<^verbatim>\<open>toLowerCase\<close> is modelled on the ASCII letters and leaves
    every other character as it is, where JavaScript applies the Unicode mapping.
  \<^item> An optional or absent property (\<^verbatim>\<open>undefined\<close>) and a NULL column are \<open>None\<close>.
    Analyzer fields are strings or absent, never an explicit \<^verbatim>\<open>null\<close>.
  \<^item> Time stamps are integers, milliseconds since the epoch. One clock reading serves a
    whole call: the source reads the clock once per candidate, the database once per
    insert.
  \<^item> The column \<^verbatim>\<open>target_details\<close> of a stored case is an object, never NULL: the only insert
    into \<^verbatim>\<open>cases\<close> is the one of \<^verbatim>\<open>createCaseFromSocialMedia\<close>, which always sets it.
\<close>

subsection \<open>Strings\<close>

text \<open>\<^verbatim>\<open>String.prototype.toLowerCase\<close> on the ASCII letters.\<close>

definition lower_char :: "char \<Rightarrow> char" where
  "lower_char c =
     (case map_of (zip ''ABCDEFGHIJKLMNOPQRSTUVWXYZ'' ''abcdefghijklmnopqrstuvwxyz'') c of
        None \<Rightarrow> c
      | Some l \<Rightarrow> l)"

definition toLowerCase :: "string \<Rightarrow> string" where
  "toLowerCase s = map lower_char s"

fun startsWith :: "string \<Rightarrow> string \<Rightarrow> bool" where
  "startsWith s [] = True"
| "startsWith [] (p # ps) = False"
| "startsWith (c # cs) (p # ps) = (c = p \<and> startsWith cs ps)"

text \<open>\<^verbatim>\<open>String.prototype.includes\<close>: the needle occurs as a contiguous substring.\<close>

fun str_includes :: "string \<Rightarrow> string \<Rightarrow> bool" where
  "str_includes [] sub = (sub = [])"
| "str_includes (c # cs) sub = (startsWith (c # cs) sub \<or> str_includes cs sub)"

text \<open>Truthiness of an optional string: absent and the empty string are falsy.\<close>

definition truthy :: "string option \<Rightarrow> bool" where
  "truthy v = (case v of None \<Rightarrow> False | Some s \<Rightarrow> s \<noteq> [])"

text \<open>\<^verbatim>\<open>v || d\<close> on an optional string with a string default.\<close>

definition or_default :: "string option \<Rightarrow> string \<Rightarrow> string" where
  "or_default v d = (case v of None \<Rightarrow> d | Some s \<Rightarrow> if s = [] then d else s)"

text \<open>\<^verbatim>\<open>v || null\<close>: the value stored in a nullable column.\<close>

definition or_null :: "string option \<Rightarrow> string option" where
  "or_null v = (if truthy v then v else None)"

subsection \<open>Data model\<close>

datatype target_type = vehicle | building | property

text \<open>The JSON object \<^verbatim>\<open>target_details\<close>; a key the object does not carry is \<open>None\<close>.\<close>

record target_details =
  td_type :: target_type
  td_make :: "string option"
  td_model :: "string option"
  td_color :: "string option"
  td_year :: "string option"
  building_type :: "string option"
  property_type :: "string option"

record location_info =
  city :: "string option"
  state :: "string option"
  country :: "string option"

record vehicle_info =
  v_model :: "string option"
  v_color :: "string option"
  v_year :: "string option"

record media_item =
  mi_type :: string
  mi_url :: string
  mi_width :: "nat option"
  mi_height :: "nat option"
  mi_duration :: "nat option"

text \<open>The analyzer output (typed \<^verbatim>\<open>any\<close> in the source): the properties the pipeline reads.\<close>

record analysis =
  a_summary :: "string option"
  a_locationInfo :: "location_info option"
  a_vehicleInfo :: "vehicle_info option"
  a_relevanceScore :: "real option"
  a_mediaUrls :: "media_item list option"
  a_text :: "string option"
  a_platform :: "string option"

text \<open>\<^verbatim>\<open>SocialMediaSource\<close> as the caller passes it; \<open>s_id\<close> is the optional \<^verbatim>\<open>id\<close>.\<close>

record source =
  s_id :: "nat option"
  platform :: string
  platform_id :: string
  url :: string
  author_username :: string
  author_display_name :: "string option"
  author_avatar_url :: "string option"
  content :: string
  posted_at :: string
  is_reply :: "bool option"
  reply_to_id :: "nat option"

text \<open>Rows of the tables \<^verbatim>\<open>cases\<close>, \<^verbatim>\<open>social_media_sources\<close>, \<^verbatim>\<open>case_updates\<close>,
  \<^verbatim>\<open>case_media\<close> and \<^verbatim>\<open>related_cases\<close>, with the columns the pipeline writes or reads.\<close>

record case_row =
  c_id :: nat
  headline :: string
  summary :: string
  target_type :: target_type
  target_details :: target_details
  location_city :: "string option"
  location_state :: "string option"
  location_country :: "string option"
  status :: string
  damage_type :: "string list option"
  ai_confidence :: real
  is_verified :: bool
  created_at :: int

record source_row =
  sr_id :: nat
  sr_platform :: string
  sr_platform_id :: string
  sr_url :: string
  sr_author_username :: string
  sr_author_display_name :: string
  sr_author_avatar_url :: string
  sr_content :: string
  sr_posted_at :: string
  sr_is_reply :: bool
  sr_reply_to_id :: "nat option"

record update_row =
  u_case_id :: nat
  u_source_id :: "nat option"
  update_type :: string
  title :: string
  description :: string
  is_public :: bool
  importance :: nat

record media_row =
  m_case_id :: nat
  m_source_id :: "nat option"
  media_type :: string
  m_url :: string
  thumbnail_url :: string
  m_width :: nat
  m_height :: nat
  m_duration :: nat
  is_primary :: bool

record related_row =
  r_case_id :: nat
  related_case_id :: nat
  relationship_type :: string
  relationship_strength :: real
  is_ai_generated :: bool

subsection \<open>Keyword classifiers\<close>

definition determineTargetType :: "string \<Rightarrow> analysis \<Rightarrow> target_type" where
  "determineTargetType cont an =
     (let textLower = toLowerCase cont in
      if str_includes textLower ''building'' \<or> str_includes textLower ''store'' \<or>
         str_includes textLower ''dealership'' \<or> str_includes textLower ''showroom'' \<or>
         str_includes textLower ''supercharger''
      then building
      else if str_includes textLower ''property'' \<or> str_includes textLower ''sign'' \<or>
         str_includes textLower ''billboard''
      then property
      else vehicle)"

definition determineBuildingType :: "string \<Rightarrow> string" where
  "determineBuildingType txt =
     (let textLower = toLowerCase txt in
      if str_includes textLower ''dealership'' \<or> str_includes textLower ''showroom'' then ''dealership''
      else if str_includes textLower ''supercharger'' \<or> str_includes textLower ''charging''
        then ''supercharger''
      else if str_includes textLower ''store'' then ''store''
      else if str_includes textLower ''factory'' \<or> str_includes textLower ''gigafactory''
        then ''factory''
      else ''other'')"

definition determinePropertyType :: "string \<Rightarrow> string" where
  "determinePropertyType txt =
     (let textLower = toLowerCase txt in
      if str_includes textLower ''sign'' \<or> str_includes textLower ''billboard'' then ''sign''
      else if str_includes textLower ''equipment'' then ''equipment''
      else ''other'')"

text \<open>\<^verbatim>\<open>analysis.vehicleInfo?.model\<close> and its siblings.\<close>

definition vehicle_model :: "analysis \<Rightarrow> string option" where
  "vehicle_model an = (case a_vehicleInfo an of None \<Rightarrow> None | Some v \<Rightarrow> v_model v)"

definition vehicle_color :: "analysis \<Rightarrow> string option" where
  "vehicle_color an = (case a_vehicleInfo an of None \<Rightarrow> None | Some v \<Rightarrow> v_color v)"

definition vehicle_year :: "analysis \<Rightarrow> string option" where
  "vehicle_year an = (case a_vehicleInfo an of None \<Rightarrow> None | Some v \<Rightarrow> v_year v)"

definition createTargetDetails :: "target_type \<Rightarrow> analysis \<Rightarrow> target_details" where
  "createTargetDetails targetType an =
     (if targetType = vehicle then
        \<lparr>td_type = vehicle, td_make = Some ''Tesla'',
         td_model = Some (or_default (vehicle_model an) []),
         td_color = Some (or_default (vehicle_color an) []),
         td_year = Some (or_default (vehicle_year an) []),
         building_type = None, property_type = None\<rparr>
      else if targetType = building then
        \<lparr>td_type = building, td_make = None, td_model = None, td_color = None, td_year = None,
         building_type = Some (determineBuildingType (or_default (a_text an) [])),
         property_type = None\<rparr>
      else
        \<lparr>td_type = property, td_make = None, td_model = None, td_color = None, td_year = None,
         building_type = None,
         property_type = Some (determinePropertyType (or_default (a_text an) []))\<rparr>)"

text \<open>The six independent keyword checks push their tag in source order.\<close>

definition determineDamageType :: "string \<Rightarrow> analysis \<Rightarrow> string list" where
  "determineDamageType cont an =
     (let textLower = toLowerCase cont;
          d1 = (if str_includes textLower ''key'' \<or> str_includes textLower ''scratch''
                then [''keying''] else []);
          d2 = (if str_includes textLower ''window'' \<and>
                   (str_includes textLower ''break'' \<or> str_includes textLower ''broke'' \<or>
                    str_includes textLower ''broken'' \<or> str_includes textLower ''smash'')
                then d1 @ [''broken_windows''] else d1);
          d3 = (if str_includes textLower ''graffiti'' \<or> str_includes textLower ''spray'' \<or>
                   str_includes textLower ''paint''
                then d2 @ [''graffiti''] else d2);
          d4 = (if str_includes textLower ''tire'' \<or> str_includes textLower ''tyre'' \<or>
                   str_includes textLower ''slash''
                then d3 @ [''tire_slashing''] else d3);
          d5 = (if str_includes textLower ''fire'' \<or> str_includes textLower ''burn'' \<or>
                   str_includes textLower ''arson''
                then d4 @ [''arson''] else d4);
          d6 = (if str_includes textLower ''dent'' \<or> str_includes textLower ''hit'' \<or>
                   str_includes textLower ''smash''
                then d5 @ [''denting''] else d5)
      in if length d6 = 0 then d6 @ [''other_damage''] else d6)"

subsection \<open>Templated headline and summary\<close>

definition loc_city :: "analysis \<Rightarrow> string option" where
  "loc_city an = (case a_locationInfo an of None \<Rightarrow> None | Some l \<Rightarrow> city l)"

definition loc_state :: "analysis \<Rightarrow> string option" where
  "loc_state an = (case a_locationInfo an of None \<Rightarrow> None | Some l \<Rightarrow> state l)"

definition generateHeadline :: "string \<Rightarrow> analysis \<Rightarrow> target_type \<Rightarrow> string" where
  "generateHeadline cont an targetType =
     (let h1 = (if targetType = vehicle then
                  (if truthy (vehicle_model an)
                   then ''Tesla'' @ '' '' @ the (vehicle_model an) else ''Tesla'') @ '' vandalized''
                else if targetType = building then
                  ''Tesla '' @ determineBuildingType cont @ '' vandalized''
                else ''Tesla '' @ determinePropertyType cont @ '' vandalized'');
          h2 = (if truthy (loc_city an) \<and> truthy (loc_state an)
                then h1 @ '' in '' @ the (loc_city an) @ '', '' @ the (loc_state an) else h1);
          damageType = determineDamageType cont an
      in if ''keying'' \<in> set damageType then h2 @ '': Keyed by vandal''
         else if ''broken_windows'' \<in> set damageType then h2 @ '': Windows smashed''
         else if ''graffiti'' \<in> set damageType then h2 @ '': Tagged with graffiti''
         else if ''tire_slashing'' \<in> set damageType then h2 @ '': Tires slashed''
         else if ''arson'' \<in> set damageType then h2 @ '': Set on fire''
         else if ''denting'' \<in> set damageType then h2 @ '': Body damaged''
         else h2)"

definition generateSummary :: "string \<Rightarrow> analysis \<Rightarrow> target_type \<Rightarrow> string" where
  "generateSummary cont an targetType =
     (let s1 = (if targetType = vehicle then
                  (let a = (if truthy (vehicle_model an)
                            then ''A Tesla'' @ '' '' @ the (vehicle_model an) else ''A Tesla'');
                       b = (if truthy (vehicle_color an)
                            then ''A '' @ the (vehicle_color an) @ '' '' @ drop 2 a else a)
                   in b @ '' was vandalized'')
                else if targetType = building then
                  ''A Tesla '' @ determineBuildingType cont @ '' was vandalized''
                else ''Tesla '' @ determinePropertyType cont @ '' was vandalized'');
          s2 = (if truthy (loc_city an) \<and> truthy (loc_state an)
                then s1 @ '' in '' @ the (loc_city an) @ '', '' @ the (loc_state an) else s1);
          damageType = determineDamageType cont an;
          s3 = (if ''keying'' \<in> set damageType
                  then s2 @ ''. The vehicle was keyed, causing damage to the paint.''
                else if ''broken_windows'' \<in> set damageType
                  then s2 @ ''. One or more windows were broken or smashed.''
                else if ''graffiti'' \<in> set damageType
                  then s2 @ ''. The target was tagged with graffiti.''
                else if ''tire_slashing'' \<in> set damageType
                  then s2 @ ''. The tires were slashed or otherwise damaged.''
                else if ''arson'' \<in> set damageType
                  then s2 @ ''. The target was set on fire or damaged by arson.''
                else if ''denting'' \<in> set damageType
                  then s2 @ ''. The body was dented or physically damaged.''
                else s2 @ ''. The target sustained damage from vandalism.'')
      in s3 @ '' This incident was reported on '' @ or_default (a_platform an) ''social media'' @ ''.'')"

subsection \<open>Similarity score\<close>

text \<open>\<^verbatim>\<open>===\<close> between a column of a row (\<open>None\<close> is NULL) and a property of the analysis
  (\<open>None\<close> is \<^verbatim>\<open>undefined\<close>): NULL and \<^verbatim>\<open>undefined\<close> are different values.\<close>

definition strict_eq :: "string option \<Rightarrow> string option \<Rightarrow> bool" where
  "strict_eq col v = (case (col, v) of (Some a, Some b) \<Rightarrow> a = b | _ \<Rightarrow> False)"

text \<open>\<^verbatim>\<open>hoursDiff\<close>: the age of the candidate at the clock reading \<open>now\<close>.\<close>

definition hoursDiff :: "int \<Rightarrow> case_row \<Rightarrow> real" where
  "hoursDiff now c = real_of_int (now - created_at c) / (1000 * 60 * 60)"

text \<open>The body of the \<^verbatim>\<open>cases.map\<close> callback of \<^verbatim>\<open>findPotentialDuplicates\<close>: the variable
  \<^verbatim>\<open>similarityScore\<close> starts at 0 and is incremented by four blocks in turn. The clock is
  read once for all candidates of a call.\<close>

definition similarityScore ::
  "int \<Rightarrow> location_info \<Rightarrow> target_details \<Rightarrow> string list \<Rightarrow> case_row \<Rightarrow> real" where
  "similarityScore now locationInfo targetDetails damageType c =
     (let s0 = 0;
          s1 = (if strict_eq (location_city c) (city locationInfo) then
                  (let s = s0 + 0.3 in
                   if strict_eq (location_state c) (state locationInfo) then s + 0.1 else s)
                else s0);
          s2 = (if target_type c = td_type targetDetails then
                  (let s = s1 + 0.2 in
                   if target_type c = vehicle \<and>
                      td_make (target_details c) = td_make targetDetails \<and>
                      td_model (target_details c) = td_model targetDetails
                   then s + 0.2 else s)
                else s1);
          caseDamageTypes = (case damage_type c of None \<Rightarrow> [] | Some ds \<Rightarrow> ds);
          matchingDamageTypes = filter (\<lambda>t. t \<in> set caseDamageTypes) damageType;
          s3 = (if length matchingDamageTypes > 0
                then s2 + 0.2 * (real (length matchingDamageTypes) / real (length damageType))
                else s2);
          h = hoursDiff now c
      in if h < 48 then s3 + 0.2 * (1 - h / 48) else s3)"







subsection \<open>Double-precision arithmetic\<close>

text \<open>
  A JavaScript number is an IEEE 754 double. The doubles are embedded in the reals, and
  \<open>fl x\<close> is the double nearest to the real \<open>x\<close>: with \<open>e\<close> the binary exponent of \<open>\<bar>x\<bar>\<close>,
  the multiple of \<open>2 powi (e - 52)\<close> nearest to \<open>x\<close>, and of two nearest ones the even
  multiple. An arithmetic
  operation of JavaScript returns the rounded exact result, and a decimal literal denotes
  the double nearest to it. The range of the exponent is not bounded here: overflow,
  subnormal numbers, \<^verbatim>\<open>NaN\<close> and the sign of zero are not modelled; the score is computed from
  list lengths and from differences of time stamps in milliseconds and reaches none of
  them.
\<close>

text \<open>The integer nearest to \<open>x\<close>, the even one of two nearest.\<close>

definition rne :: "real \<Rightarrow> int" where
  "rne x =
     (let f = \<lfloor>x\<rfloor>; r = x - of_int f
      in if r < 1 / 2 then f else if 1 / 2 < r then f + 1 else if even f then f else f + 1)"

text \<open>The binary exponent of a positive real: \<open>2 powi expo x \<le> x < 2 powi (expo x + 1)\<close>.\<close>

definition expo :: "real \<Rightarrow> int" where
  "expo x = (if 1 \<le> x then bitlen \<lfloor>x\<rfloor> - 1 else - bitlen (\<lceil>1 / x\<rceil> - 1))"

definition fl :: "real \<Rightarrow> real" where
  "fl x =
     (if x = 0 then 0
      else (let e = expo \<bar>x\<bar> - 52
            in sgn x * of_int (rne (\<bar>x\<bar> * 2 powi (- e))) * 2 powi e))"

text \<open>A decimal literal of the source, and the four operations.\<close>

definition js_lit :: "real \<Rightarrow> real" where
  "js_lit x = fl x"

definition js_add :: "real \<Rightarrow> real \<Rightarrow> real" where
  "js_add a b = fl (a + b)"

definition js_sub :: "real \<Rightarrow> real \<Rightarrow> real" where
  "js_sub a b = fl (a - b)"

definition js_mul :: "real \<Rightarrow> real \<Rightarrow> real" where
  "js_mul a b = fl (a * b)"

definition js_div :: "real \<Rightarrow> real \<Rightarrow> real" where
  "js_div a b = fl (a / b)"

subsection \<open>The similarity score in double-precision arithmetic\<close>

text \<open>\<^verbatim>\<open>hoursDiff\<close> as the code computes it: \<^verbatim>\<open>getTime()\<close> returns an integer number of
  milliseconds, the difference and the quotient are rounded.\<close>

definition hoursDiff_double :: "int \<Rightarrow> case_row \<Rightarrow> real" where
  "hoursDiff_double now c =
     js_div (js_sub (real_of_int now) (real_of_int (created_at c))) (1000 * 60 * 60)"

text \<open>The body of the \<^verbatim>\<open>cases.map\<close> callback once more, now with every literal and every
  operation of the source in double-precision arithmetic: the value the code computes.
  \<open>similarityScore\<close> above is the same expression evaluated exactly; the two differ by
  the rounding errors.\<close>

definition similarityScore_double ::
  "int \<Rightarrow> location_info \<Rightarrow> target_details \<Rightarrow> string list \<Rightarrow> case_row \<Rightarrow> real" where
  "similarityScore_double now locationInfo targetDetails damageType c =
     (let s0 = 0;
          s1 = (if strict_eq (location_city c) (city locationInfo) then
                  (let s = js_add s0 (js_lit 0.3) in
                   if strict_eq (location_state c) (state locationInfo)
                   then js_add s (js_lit 0.1) else s)
                else s0);
          s2 = (if target_type c = td_type targetDetails then
                  (let s = js_add s1 (js_lit 0.2) in
                   if target_type c = vehicle \<and>
                      td_make (target_details c) = td_make targetDetails \<and>
                      td_model (target_details c) = td_model targetDetails
                   then js_add s (js_lit 0.2) else s)
                else s1);
          caseDamageTypes = (case damage_type c of None \<Rightarrow> [] | Some ds \<Rightarrow> ds);
          matchingDamageTypes = filter (\<lambda>t. t \<in> set caseDamageTypes) damageType;
          s3 = (if length matchingDamageTypes > 0
                then js_add s2 (js_mul (js_lit 0.2)
                       (js_div (real (length matchingDamageTypes)) (real (length damageType))))
                else s2);
          h = hoursDiff_double now c
      in if h < 48 then js_add s3 (js_mul (js_lit 0.2) (js_sub 1 (js_div h 48))) else s3)"

text \<open>The score as the specification words it: a list of weighted terms, each present
  when its condition holds, added up from 0 in the order of the list. Two texts are
  equal when both are present and the same; the age is the difference of the time stamps
  in hours.\<close>

definition location_terms :: "location_info \<Rightarrow> case_row \<Rightarrow> real list" where
  "location_terms li c =
     (let same_city = (case location_city c of None \<Rightarrow> False | Some x \<Rightarrow> city li = Some x);
          same_state = (case location_state c of None \<Rightarrow> False | Some x \<Rightarrow> state li = Some x)
      in (if same_city then [js_lit 0.3] else []) @
         (if same_city \<and> same_state then [js_lit 0.1] else []))"

definition target_terms :: "target_details \<Rightarrow> case_row \<Rightarrow> real list" where
  "target_terms td c =
     (let same_type = (target_type c = td_type td);
          same_model = (target_type c = vehicle \<and> td_make (target_details c) = td_make td \<and>
                        td_model (target_details c) = td_model td)
      in (if same_type then [js_lit 0.2] else []) @
         (if same_type \<and> same_model then [js_lit 0.2] else []))"

definition damage_terms :: "string list \<Rightarrow> case_row \<Rightarrow> real list" where
  "damage_terms dmg c =
     (let present = (case damage_type c of None \<Rightarrow> [] | Some ts \<Rightarrow> ts);
          overlap = length (filter (\<lambda>t. t \<in> set present) dmg)
      in if 1 \<le> overlap
         then [js_mul (js_lit 0.2) (js_div (real overlap) (real (length dmg)))] else [])"

definition age_hours :: "int \<Rightarrow> case_row \<Rightarrow> real" where
  "age_hours now c = fl (fl (real_of_int (now - created_at c)) / 3600000)"

definition recency_terms :: "int \<Rightarrow> case_row \<Rightarrow> real list" where
  "recency_terms now c =
     (if age_hours now c < 48
      then [js_mul (js_lit 0.2) (js_sub 1 (js_div (age_hours now c) 48))] else [])"

definition double_sum :: "real list \<Rightarrow> real" where
  "double_sum ts = foldl js_add 0 ts"

subsection \<open>The case repository\<close>

text \<open>
  The repository is the Supabase client. Its five tables are lists in insertion order; a
  new row receives the next free identifier. A call to the repository may fail for any
  reason (a rejected constraint, the network): the field \<open>faults\<close> is the schedule of the
  outcomes of the calls still to come (\<open>True\<close>: the call returns an error and changes no
  table; an exhausted schedule means success), and \<open>log\<close> records every call made with
  its outcome. Neither field is read by the pipeline.
\<close>

datatype repo_call =
  SelectCases | InsertCase | SelectSource | InsertSource | InsertUpdate | InsertMedia | InsertRelated

datatype error = RepositoryError repo_call

record db =
  cases_tbl :: "case_row list"
  sources_tbl :: "source_row list"
  updates_tbl :: "update_row list"
  media_tbl :: "media_row list"
  related_tbl :: "related_row list"
  next_id :: nat
  faults :: "bool list"
  log :: "(repo_call \<times> bool) list"

text \<open>One call to the repository: returns whether it failed, and consumes its outcome.\<close>

definition repo_attempt :: "repo_call \<Rightarrow> db \<Rightarrow> bool \<times> db" where
  "repo_attempt k d =
     (case faults d of
        [] \<Rightarrow> (False, d\<lparr>log := log d @ [(k, False)]\<rparr>)
      | f # fs \<Rightarrow> (f, d\<lparr>faults := fs, log := log d @ [(k, f)]\<rparr>))"

text \<open>\<^verbatim>\<open>createCaseUpdate\<close>: the insert's error is checked and thrown.\<close>

definition createCaseUpdate :: "update_row \<Rightarrow> db \<Rightarrow> (error + unit) \<times> db" where
  "createCaseUpdate u d =
     (case repo_attempt InsertUpdate d of
        (failed, d1) \<Rightarrow>
          if failed then (Inl (RepositoryError InsertUpdate), d1)
          else (Inr (), d1\<lparr>updates_tbl := updates_tbl d1 @ [u]\<rparr>))"

text \<open>The lookup \<^verbatim>\<open>select('id').eq('platform', ..).eq('platform_id', ..).single()\<close>:
  data only when exactly one row matches; its error is never inspected by the callers.\<close>

definition select_source_id :: "string \<Rightarrow> string \<Rightarrow> db \<Rightarrow> nat option \<times> db" where
  "select_source_id p pid d =
     (case repo_attempt SelectSource d of
        (failed, d1) \<Rightarrow>
          (if failed then None
           else (case filter (\<lambda>r. sr_platform r = p \<and> sr_platform_id r = pid) (sources_tbl d1) of
                   [r] \<Rightarrow> Some (sr_id r)
                 | _ \<Rightarrow> None),
           d1))"

definition new_source_row :: "nat \<Rightarrow> source \<Rightarrow> source_row" where
  "new_source_row i s =
     \<lparr>sr_id = i, sr_platform = platform s, sr_platform_id = platform_id s, sr_url = url s,
      sr_author_username = author_username s,
      sr_author_display_name = or_default (author_display_name s) [],
      sr_author_avatar_url = or_default (author_avatar_url s) [],
      sr_content = content s, sr_posted_at = posted_at s,
      sr_is_reply = (case is_reply s of None \<Rightarrow> False | Some b \<Rightarrow> b),
      sr_reply_to_id = reply_to_id s\<rparr>"

definition link_update :: "source \<Rightarrow> nat \<Rightarrow> nat \<Rightarrow> update_row" where
  "link_update s caseId sourceId =
     \<lparr>u_case_id = caseId, u_source_id = Some sourceId, update_type = ''new_information'',
      title = ''New information from '' @ platform s,
      description = ''A post on '' @ platform s @ '' by @'' @ author_username s @
        '' has been linked to this case.'',
      is_public = True, importance = 3\<rparr>"

text \<open>\<^verbatim>\<open>linkSourceToCase\<close>: store the source unless the lookup found it, then append the
  case update that links it. Returns the source id.\<close>

definition linkSourceToCase :: "source \<Rightarrow> nat \<Rightarrow> db \<Rightarrow> (error + nat) \<times> db" where
  "linkSourceToCase s caseId d =
     (case select_source_id (platform s) (platform_id s) d of
        (Some sourceId, d1) \<Rightarrow>
          (case createCaseUpdate (link_update s caseId sourceId) d1 of
             (Inl e, d2) \<Rightarrow> (Inl e, d2)
           | (Inr u, d2) \<Rightarrow> (Inr sourceId, d2))
      | (None, d1) \<Rightarrow>
          (case repo_attempt InsertSource d1 of
             (failed, d2) \<Rightarrow>
               if failed then (Inl (RepositoryError InsertSource), d2)
               else
                 (let sourceId = next_id d2;
                      d3 = d2\<lparr>sources_tbl := sources_tbl d2 @ [new_source_row sourceId s],
                              next_id := Suc (next_id d2)\<rparr>
                  in case createCaseUpdate (link_update s caseId sourceId) d3 of
                       (Inl e, d4) \<Rightarrow> (Inl e, d4)
                     | (Inr u, d4) \<Rightarrow> (Inr sourceId, d4))))"

text \<open>\<^verbatim>\<open>storeSocialMediaSource\<close> of the integration layer: the same lookup, then the insert;
  the pipeline itself stores sources through \<^verbatim>\<open>linkSourceToCase\<close>.\<close>

definition storeSocialMediaSource :: "source \<Rightarrow> db \<Rightarrow> (error + nat) \<times> db" where
  "storeSocialMediaSource s d =
     (case select_source_id (platform s) (platform_id s) d of
        (Some existing, d1) \<Rightarrow> (Inr existing, d1)
      | (None, d1) \<Rightarrow>
          (case repo_attempt InsertSource d1 of
             (failed, d2) \<Rightarrow>
               if failed then (Inl (RepositoryError InsertSource), d2)
               else (Inr (next_id d2),
                     d2\<lparr>sources_tbl := sources_tbl d2 @ [new_source_row (next_id d2) s],
                        next_id := Suc (next_id d2)\<rparr>)))"

text \<open>\<^verbatim>\<open>media.url.replace(/\.mp4$/, '.jpg')\<close>.\<close>

definition replace_mp4 :: "string \<Rightarrow> string" where
  "replace_mp4 u =
     (if length u \<ge> 4 \<and> drop (length u - 4) u = ''.mp4''
      then take (length u - 4) u @ ''.jpg'' else u)"

definition nat_or_zero :: "nat option \<Rightarrow> nat" where
  "nat_or_zero v = (case v of None \<Rightarrow> 0 | Some n \<Rightarrow> n)"

definition new_media_row :: "nat \<Rightarrow> nat option \<Rightarrow> nat \<Rightarrow> media_item \<Rightarrow> media_row" where
  "new_media_row caseId sourceId index m =
     \<lparr>m_case_id = caseId, m_source_id = sourceId,
      media_type = (if mi_type m = ''video'' then ''video'' else ''image''),
      m_url = mi_url m,
      thumbnail_url = (if mi_type m = ''video'' then replace_mp4 (mi_url m) else mi_url m),
      m_width = nat_or_zero (mi_width m), m_height = nat_or_zero (mi_height m),
      m_duration = nat_or_zero (mi_duration m),
      is_primary = (index = 0)\<rparr>"

text \<open>\<^verbatim>\<open>addMediaToCase\<close>: one insert per media item, in order, with its index. The result
  of the insert is not inspected, so a failed insert is skipped and nothing is thrown.\<close>

fun addMediaToCase :: "nat \<Rightarrow> nat option \<Rightarrow> nat \<Rightarrow> media_item list \<Rightarrow> db \<Rightarrow> db" where
  "addMediaToCase caseId sourceId index [] d = d"
| "addMediaToCase caseId sourceId index (m # ms) d =
     (case repo_attempt InsertMedia d of
        (failed, d1) \<Rightarrow>
          addMediaToCase caseId sourceId (Suc index) ms
            (if failed then d1
             else d1\<lparr>media_tbl := media_tbl d1 @ [new_media_row caseId sourceId index m]\<rparr>))"

text \<open>\<^verbatim>\<open>if (analysis.mediaUrls && analysis.mediaUrls.length > 0) await addMediaToCase(..)\<close>.\<close>

definition add_media_if_any :: "nat \<Rightarrow> nat option \<Rightarrow> analysis \<Rightarrow> db \<Rightarrow> db" where
  "add_media_if_any caseId sourceId an d =
     (case a_mediaUrls an of
        None \<Rightarrow> d
      | Some ms \<Rightarrow> if length ms > 0 then addMediaToCase caseId sourceId 0 ms d else d)"

definition related_pair :: "nat \<Rightarrow> nat \<Rightarrow> string \<Rightarrow> real \<Rightarrow> related_row list" where
  "related_pair caseId relatedCaseId relationshipType relationshipStrength =
     [\<lparr>r_case_id = caseId, related_case_id = relatedCaseId,
       relationship_type = relationshipType, relationship_strength = relationshipStrength,
       is_ai_generated = True\<rparr>,
      \<lparr>r_case_id = relatedCaseId, related_case_id = caseId,
       relationship_type = relationshipType, relationship_strength = relationshipStrength,
       is_ai_generated = True\<rparr>]"

text \<open>The values that the CHECK constraint of \<^verbatim>\<open>supabase-schema.sql\<close> admits in the column
  \<^verbatim>\<open>related_cases.relationship_type\<close> (and the type \<^verbatim>\<open>RelatedCase\<close> in its field).\<close>

definition schema_relationship_types :: "string list" where
  "schema_relationship_types =
     [''same_location'', ''same_suspect'', ''same_method'', ''part_of_series'', ''other'']"

text \<open>\<^verbatim>\<open>linkRelatedCases\<close>: one insert of both rows; its result is not inspected.\<close>

definition linkRelatedCases :: "nat \<Rightarrow> nat \<Rightarrow> string \<Rightarrow> real \<Rightarrow> db \<Rightarrow> db" where
  "linkRelatedCases caseId relatedCaseId relationshipType relationshipStrength d =
     (case repo_attempt InsertRelated d of
        (failed, d1) \<Rightarrow>
          if failed then d1
          else d1\<lparr>related_tbl := related_tbl d1 @
                 related_pair caseId relatedCaseId relationshipType relationshipStrength\<rparr>)"

text \<open>The query of \<^verbatim>\<open>findPotentialDuplicates\<close>: rows whose city and target type equal the
  filter values (a NULL column and an absent filter value equal nothing), most recent
  first, at most ten. Rows with the same time stamp keep their table order.\<close>

definition candidate_rows :: "location_info \<Rightarrow> target_details \<Rightarrow> db \<Rightarrow> case_row list" where
  "candidate_rows locationInfo targetDetails d =
     take 10 (sort_key (\<lambda>c. - created_at c)
       (filter (\<lambda>c. strict_eq (location_city c) (city locationInfo) \<and>
                     target_type c = td_type targetDetails) (cases_tbl d)))"

text \<open>\<^verbatim>\<open>findPotentialDuplicates\<close>: a failed query is thrown and caught inside, and the
  function then returns the empty list. The scored candidates are pairs of the case and
  its \<^verbatim>\<open>similarityScore\<close>, sorted by descending score (\<^verbatim>\<open>Array.prototype.sort\<close> is stable).\<close>

definition findPotentialDuplicates ::
  "int \<Rightarrow> location_info \<Rightarrow> target_details \<Rightarrow> string list \<Rightarrow> db \<Rightarrow> (case_row \<times> real) list \<times> db" where
  "findPotentialDuplicates now locationInfo targetDetails damageType d =
     (case repo_attempt SelectCases d of
        (failed, d1) \<Rightarrow>
          if failed then ([], d1)
          else
            (let cs = candidate_rows locationInfo targetDetails d1 in
             if length cs = 0 then ([], d1)
             else (sort_key (\<lambda>p. - snd p)
                     (map (\<lambda>c. (c, similarityScore now locationInfo targetDetails damageType c)) cs),
                   d1)))"

subsection \<open>Resolving one post\<close>

record case_creation_result =
  caseId :: nat
  isNewCase :: bool
  isDuplicate :: bool

definition duplicate_update :: "source \<Rightarrow> nat \<Rightarrow> update_row" where
  "duplicate_update s dupId =
     \<lparr>u_case_id = dupId, u_source_id = s_id s, update_type = ''new_information'',
      title = ''Additional report of the same incident'',
      description = ''A new social media post about this incident was found on '' @
        platform s @ ''.'',
      is_public = True, importance = 2\<rparr>"

text \<open>The branch taken when the best candidate scores above 0.85.\<close>

definition attach_to_duplicate ::
  "source \<Rightarrow> analysis \<Rightarrow> nat \<Rightarrow> db \<Rightarrow> (error + case_creation_result) \<times> db" where
  "attach_to_duplicate s an dupId d =
     (case linkSourceToCase s dupId d of
        (Inl e, d1) \<Rightarrow> (Inl e, d1)
      | (Inr sid, d1) \<Rightarrow>
          (let d2 = add_media_if_any dupId (s_id s) an d1 in
           case createCaseUpdate (duplicate_update s dupId) d2 of
             (Inl e, d3) \<Rightarrow> (Inl e, d3)
           | (Inr u, d3) \<Rightarrow> (Inr \<lparr>caseId = dupId, isNewCase = False, isDuplicate = True\<rparr>, d3)))"

text \<open>\<^verbatim>\<open>analysis.locationInfo || {}\<close>.\<close>

definition search_location :: "analysis \<Rightarrow> location_info" where
  "search_location an =
     (case a_locationInfo an of
        None \<Rightarrow> \<lparr>city = None, state = None, country = None\<rparr> | Some l \<Rightarrow> l)"

text \<open>The loop over the scored candidates that links those above 0.6 to the new case.\<close>

fun link_possible_duplicates :: "nat \<Rightarrow> (case_row \<times> real) list \<Rightarrow> db \<Rightarrow> db" where
  "link_possible_duplicates newId [] d = d"
| "link_possible_duplicates newId (p # ps) d =
     link_possible_duplicates newId ps
       (if snd p > 0.6 then linkRelatedCases newId (c_id (fst p)) ''possible_duplicate'' (snd p) d
        else d)"

definition new_case_row ::
  "nat \<Rightarrow> int \<Rightarrow> source \<Rightarrow> analysis \<Rightarrow> case_row" where
  "new_case_row i now s an =
     (let targetType = determineTargetType (content s) an;
          locationInfo = search_location an
      in \<lparr>c_id = i,
          headline = generateHeadline (content s) an targetType,
          summary = (if truthy (a_summary an) then the (a_summary an)
                     else generateSummary (content s) an targetType),
          target_type = targetType,
          target_details = createTargetDetails targetType an,
          location_city = or_null (city locationInfo),
          location_state = or_null (state locationInfo),
          location_country = Some (or_default (country locationInfo) ''US''),
          status = ''reported'',
          damage_type = Some (determineDamageType (content s) an),
          ai_confidence = (case a_relevanceScore an of
                             None \<Rightarrow> 0.7 | Some r \<Rightarrow> if r = 0 then 0.7 else r),
          is_verified = False,
          created_at = now\<rparr>)"

text \<open>The branch that inserts a new case; the insert's error is checked and thrown.\<close>

definition create_new_case ::
  "int \<Rightarrow> source \<Rightarrow> analysis \<Rightarrow> (case_row \<times> real) list \<Rightarrow> db \<Rightarrow>
     (error + case_creation_result) \<times> db" where
  "create_new_case now s an potentialDuplicates d =
     (case repo_attempt InsertCase d of
        (failed, d1) \<Rightarrow>
          if failed then (Inl (RepositoryError InsertCase), d1)
          else
            (let newId = next_id d1;
                 d2 = d1\<lparr>cases_tbl := cases_tbl d1 @ [new_case_row newId now s an],
                         next_id := Suc (next_id d1)\<rparr>
             in case linkSourceToCase s newId d2 of
                  (Inl e, d3) \<Rightarrow> (Inl e, d3)
                | (Inr sid, d3) \<Rightarrow>
                    (let d4 = add_media_if_any newId (s_id s) an d3;
                         d5 = link_possible_duplicates newId potentialDuplicates d4
                     in (Inr \<lparr>caseId = newId, isNewCase = True, isDuplicate = False\<rparr>, d5))))"

text \<open>\<^verbatim>\<open>createCaseFromSocialMedia\<close>. The clock reading \<open>now\<close> serves the score and the
  \<^verbatim>\<open>created_at\<close> default of a new case. The outer \<^verbatim>\<open>catch\<close> rethrows.\<close>

definition createCaseFromSocialMedia ::
  "int \<Rightarrow> source \<Rightarrow> analysis \<Rightarrow> db \<Rightarrow> (error + case_creation_result) \<times> db" where
  "createCaseFromSocialMedia now s an d =
     (let targetType = determineTargetType (content s) an;
          targetDetails = createTargetDetails targetType an;
          locationInfo = search_location an;
          damageType = determineDamageType (content s) an
      in case findPotentialDuplicates now locationInfo targetDetails damageType d of
           (potentialDuplicates, d1) \<Rightarrow>
             (case potentialDuplicates of
                [] \<Rightarrow> create_new_case now s an potentialDuplicates d1
              | best # rest \<Rightarrow>
                  if snd best > 0.85 then attach_to_duplicate s an (c_id (fst best)) d1
                  else create_new_case now s an potentialDuplicates d1))"

subsection \<open>Example inputs\<close>

text \<open>What \<^verbatim>\<open>analyzeTextContent\<close> returns for a text without an "in City, ST" phrase, model
  or colour: empty strings, no \<^verbatim>\<open>text\<close>, \<^verbatim>\<open>platform\<close> or \<^verbatim>\<open>mediaUrls\<close> property.\<close>

definition bare_analysis :: analysis where
  "bare_analysis =
     \<lparr>a_summary = Some [],
      a_locationInfo = Some \<lparr>city = Some [], state = Some [], country = Some ''US''\<rparr>,
      a_vehicleInfo = Some \<lparr>v_model = Some [], v_color = Some [], v_year = Some []\<rparr>,
      a_relevanceScore = Some 0.32, a_mediaUrls = None, a_text = None, a_platform = None\<rparr>"

definition austin_analysis :: analysis where
  "austin_analysis =
     \<lparr>a_summary = Some [],
      a_locationInfo = Some \<lparr>city = Some ''Austin'', state = Some ''TX'', country = Some ''US''\<rparr>,
      a_vehicleInfo = Some \<lparr>v_model = Some ''Model 3'', v_color = Some ''white'', v_year = Some []\<rparr>,
      a_relevanceScore = Some 0.8, a_mediaUrls = None, a_text = None, a_platform = None\<rparr>"

definition tweet :: "string \<Rightarrow> string \<Rightarrow> source" where
  "tweet pid txt =
     \<lparr>s_id = None, platform = ''twitter'', platform_id = pid,
      url = ''https://twitter.com/u/status/'' @ pid, author_username = ''u'',
      author_display_name = Some ''U'', author_avatar_url = None, content = txt,
      posted_at = ''2025-03-01T00:00:00.000Z'', is_reply = None, reply_to_id = None\<rparr>"


definition austin_location :: location_info where
  "austin_location = \<lparr>city = Some ''Austin'', state = Some ''TX'', country = Some ''US''\<rparr>"

definition model3_details :: target_details where
  "model3_details =
     \<lparr>td_type = vehicle, td_make = Some ''Tesla'', td_model = Some ''Model 3'',
      td_color = Some ''white'', td_year = Some [], building_type = None, property_type = None\<rparr>"

text \<open>A stored case: a keyed and tagged Model 3 in Austin, created at time \<open>t\<close>.\<close>

definition austin_case :: "nat \<Rightarrow> int \<Rightarrow> case_row" where
  "austin_case i t =
     \<lparr>c_id = i, headline = ''Tesla Model 3 vandalized in Austin, TX: Keyed by vandal'',
      summary = ''A white Tesla Model 3 was vandalized in Austin, TX.'',
      target_type = vehicle, target_details = model3_details,
      location_city = Some ''Austin'', location_state = Some ''TX'',
      location_country = Some ''US'', status = ''reported'',
      damage_type = Some [''keying'', ''graffiti''], ai_confidence = 0.8, is_verified = False,
      created_at = t\<rparr>"

subsection \<open>Observations on two repository states\<close>

text \<open>The rows (or log entries) a later state has beyond an earlier one, and the fact that
  the later list only continues the earlier one.\<close>

definition added :: "'a list \<Rightarrow> 'a list \<Rightarrow> 'a list" where
  "added old new = drop (length old) new"

definition grown :: "'a list \<Rightarrow> 'a list \<Rightarrow> bool" where
  "grown old new = (take (length old) new = old)"

text \<open>The stored source rows that carry the key \<open>(platform, platform_id)\<close> of a source.\<close>

definition stored :: "source \<Rightarrow> db \<Rightarrow> source_row list" where
  "stored s d =
     filter (\<lambda>r. sr_platform r = platform s \<and> sr_platform_id r = platform_id s) (sources_tbl d)"

text \<open>The link row of the opposite direction.\<close>

definition mirror :: "related_row \<Rightarrow> related_row" where
  "mirror r = r\<lparr>r_case_id := related_case_id r, related_case_id := r_case_id r\<rparr>"

text \<open>The candidates \<^verbatim>\<open>createCaseFromSocialMedia\<close> obtains from the duplicate search.\<close>

definition search_result :: "int \<Rightarrow> source \<Rightarrow> analysis \<Rightarrow> db \<Rightarrow> (case_row \<times> real) list" where
  "search_result now s an d =
     fst (findPotentialDuplicates now (search_location an)
            (createTargetDetails (determineTargetType (content s) an) an)
            (determineDamageType (content s) an) d)"

text \<open>The second report of the scenario, and a repository holding the first case only.\<close>

definition second_report :: source where
  "second_report = tweet ''43'' ''Tesla Model 3 vandalized in Austin, TX, scratched with key''"

definition one_case_db :: "bool list \<Rightarrow> db" where
  "one_case_db fs =
     \<lparr>cases_tbl = [austin_case 7 0], sources_tbl = [], updates_tbl = [], media_tbl = [],
      related_tbl = [], next_id = 8, faults = fs, log = []\<rparr>"

text \<open>A later report of another model in the same city.\<close>

definition modely_analysis :: analysis where
  "modely_analysis =
     \<lparr>a_summary = Some [],
      a_locationInfo = Some \<lparr>city = Some ''Austin'', state = Some ''TX'', country = Some ''US''\<rparr>,
      a_vehicleInfo = Some \<lparr>v_model = Some ''Model Y'', v_color = Some [], v_year = Some []\<rparr>,
      a_relevanceScore = Some 0.8, a_mediaUrls = None, a_text = None, a_platform = None\<rparr>"

definition modely_details :: target_details where
  "modely_details =
     \<lparr>td_type = vehicle, td_make = Some ''Tesla'', td_model = Some ''Model Y'',
      td_color = Some [], td_year = Some [], building_type = None, property_type = None\<rparr>"

definition third_report :: source where
  "third_report = tweet ''44'' ''Tesla Model Y keyed in Austin, TX''"



text \<open>How often the log records a successful call of a kind.\<close>

definition succeeded :: "repo_call \<Rightarrow> (repo_call \<times> bool) list \<Rightarrow> nat" where
  "succeeded k L = count_list L (k, False)"


section \<open>Properties\<close>

subsection \<open>Rounding to the nearest double\<close>

text \<open>\<open>rne\<close> returns a nearest integer and fixes the integers.\<close>

lemma rne_nearest: "\<bar>of_int (rne x) - x\<bar> \<le> 1 / 2"
  unfolding rne_def Let_def by (auto; linarith)

lemma rne_of_int: "rne (of_int n) = n"
  by (simp add: rne_def)

text \<open>\<open>expo\<close> is the binary exponent.\<close>

lemma expo_bounds:
  assumes "0 < x"
  shows "2 powi (expo x) \<le> x \<and> x < 2 powi (expo x + 1)"
proof (cases "1 \<le> x")
  case True
  let ?m = "\<lfloor>x\<rfloor>"
  have m: "0 < ?m"
    using True by linarith
  from bitlen_bounds [OF m] have b: "2 ^ nat (bitlen ?m - 1) \<le> ?m" "?m < 2 ^ nat (bitlen ?m)"
    by simp_all
  have b1: "1 \<le> bitlen ?m"
    using m by (simp add: bitlen_alt_def)
  have e: "expo x = bitlen ?m - 1"
    using True by (simp add: expo_def)
  have "(2::real) powi (bitlen ?m - 1) = of_int (2 ^ nat (bitlen ?m - 1))"
    using b1 by (simp add: power_int_def)
  also have "\<dots> \<le> of_int ?m"
    using b(1) by (simp only: of_int_le_iff)
  also have "\<dots> \<le> x"
    by simp
  finally have lo: "2 powi (expo x) \<le> x"
    by (simp add: e)
  have "?m + 1 \<le> 2 ^ nat (bitlen ?m)"
    using b(2) by simp
  then have "of_int (?m + 1) \<le> (2 ^ nat (bitlen ?m) :: real)"
    by (simp only: of_int_le_numeral_power_cancel_iff)
  moreover have "x < of_int (?m + 1)"
    by linarith
  ultimately have "x < (2 ^ nat (bitlen ?m) :: real)"
    by linarith
  moreover have "(2::real) powi (bitlen ?m) = 2 ^ nat (bitlen ?m)"
    using b1 by (simp add: power_int_def)
  ultimately have hi: "x < 2 powi (expo x + 1)"
    by (simp add: e)
  from lo hi show ?thesis ..
next
  case False
  let ?n = "\<lceil>1 / x\<rceil>"
  let ?k = "bitlen (?n - 1)"
  have y: "1 < 1 / x"
    using False assms by simp
  then have n: "0 < ?n - 1"
    by linarith
  from bitlen_bounds [OF n] have b: "2 ^ nat (?k - 1) \<le> ?n - 1" "?n - 1 < 2 ^ nat ?k"
    by simp_all
  have k1: "1 \<le> ?k"
    using n by (simp add: bitlen_alt_def)
  have e: "expo x = - ?k"
    using False by (simp add: expo_def)
  have "?n \<le> 2 ^ nat ?k"
    using b(2) by simp
  then have "of_int ?n \<le> (2 ^ nat ?k :: real)"
    by simp
  moreover have "1 / x \<le> of_int ?n"
    by linarith
  ultimately have "1 / x \<le> 2 ^ nat ?k"
    by linarith
  then have "1 / 2 ^ nat ?k \<le> x"
    using assms by (simp add: field_simps)
  moreover have "(2::real) powi (- ?k) = 1 / 2 ^ nat ?k"
    using k1 by (simp add: power_int_def field_simps)
  ultimately have lo: "2 powi (expo x) \<le> x"
    by (simp add: e)
  have "2 ^ nat (?k - 1) \<le> (of_int (?n - 1) :: real)"
    using b(1) by (simp only: numeral_power_le_of_int_cancel_iff)
  moreover have "of_int (?n - 1) < 1 / x"
    by linarith
  ultimately have "2 ^ nat (?k - 1) < 1 / x"
    by linarith
  then have "x < 1 / 2 ^ nat (?k - 1)"
    using assms by (simp add: field_simps)
  moreover have "(2::real) powi (- ?k + 1) = 1 / 2 ^ nat (?k - 1)"
  proof (cases "?k = 1")
    case True
    then show ?thesis by simp
  next
    case False
    with k1 have "- ?k + 1 < 0" by simp
    then have "(2::real) powi (- ?k + 1) = inverse 2 ^ nat (?k - 1)"
      by (simp add: power_int_def)
    then show ?thesis
      by (simp add: field_simps)
  qed
  ultimately have hi: "x < 2 powi (expo x + 1)"
    by (simp add: e)
  from lo hi show ?thesis ..
qed

text \<open>\<open>fl x\<close> is within half a unit in the last place of \<open>x\<close>, that is within
  \<open>\<bar>x\<bar> / 2 ^ 53\<close>.\<close>

lemma fl_error:
  assumes "x \<noteq> 0"
  shows "\<bar>fl x - x\<bar> \<le> 2 powi (expo \<bar>x\<bar> - 53)"
proof -
  let ?e = "expo \<bar>x\<bar> - 52"
  let ?q = "\<bar>x\<bar> * 2 powi (- ?e)"
  have p: "(2::real) powi ?e > 0"
    by simp
  have "(2::real) powi (- ?e + ?e) = 2 powi (- ?e) * 2 powi ?e"
    by (rule power_int_add) simp
  then have inv: "(2::real) powi (- ?e) * 2 powi ?e = 1"
    by simp
  have "fl x = sgn x * of_int (rne ?q) * 2 powi ?e"
    using assms by (simp add: fl_def Let_def)
  moreover have "x = sgn x * ?q * 2 powi ?e"
    using inv by (simp add: mult.assoc flip: abs_sgn mult_sgn_abs)
  ultimately have "fl x - x = sgn x * (of_int (rne ?q) - ?q) * 2 powi ?e"
    by (simp add: algebra_simps)
  then have "\<bar>fl x - x\<bar> = \<bar>of_int (rne ?q) - ?q\<bar> * 2 powi ?e"
    using assms by (simp add: abs_mult abs_sgn_eq)
  also have "\<dots> \<le> (1 / 2) * 2 powi ?e"
    using rne_nearest [of ?q] p by (intro mult_right_mono) simp_all
  also have "\<dots> = 2 powi (expo \<bar>x\<bar> - 53)"
    by (simp add: power_int_diff)
  finally show ?thesis .
qed

lemma fl_relative_error: "\<bar>fl x - x\<bar> \<le> \<bar>x\<bar> / 2 ^ 53"
proof (cases "x = 0")
  case True
  then show ?thesis by (simp add: fl_def)
next
  case False
  then have "0 < \<bar>x\<bar>" by simp
  from expo_bounds [OF this] have "2 powi (expo \<bar>x\<bar>) \<le> \<bar>x\<bar>" ..
  then have "2 powi (expo \<bar>x\<bar>) / 2 ^ 53 \<le> \<bar>x\<bar> / 2 ^ 53"
    by (simp add: divide_right_mono)
  moreover have "(2::real) powi (expo \<bar>x\<bar> - 53) = 2 powi (expo \<bar>x\<bar>) / 2 ^ 53"
    by (simp add: power_int_diff)
  ultimately show ?thesis
    using fl_error [OF False] by simp
qed

subsection \<open>The similarity score\<close>

lemma length_ge1_iff: "(Suc 0 \<le> length xs) = (xs \<noteq> [])"
  by (cases xs) auto










text \<open>Two evaluations in double-precision arithmetic: all six terms at an age of two hours
  (1.0916666666666668, where the exact sum is \<open>131/120\<close>), and the terms left for a post
  from another city at an age of fifty hours.\<close>

lemma austin_terms_sum: "double_sum (location_terms austin_location (austin_case 1 0) @
       target_terms model3_details (austin_case 1 0) @
       damage_terms [''keying'', ''arson''] (austin_case 1 0) @
       recency_terms 7200000 (austin_case 1 0)) = 614553699151599 / 562949953421312"
  by code_simp

lemma half_of_fifth: "js_mul (js_lit 0.2) (js_lit 0.5) = 3602879701896397 / 36028797018963968"
  by code_simp

lemma dallas_terms_sum: "double_sum
      (location_terms \<lparr>city = Some ''Dallas'', state = Some ''TX'', country = Some ''US''\<rparr>
         (austin_case 1 0) @
       target_terms model3_details (austin_case 1 0) @
       damage_terms [''keying'', ''arson''] (austin_case 1 0) @
       recency_terms 180000000 (austin_case 1 0)) = 1 / 2"
  by code_simp

text \<open>Where the exact score meets a threshold the double can lie beyond it: the same
  city, state and target type and nothing else give \<open>0.6\<close> exactly and
  0.6000000000000001 in the code.\<close>

lemma double_score_beyond_exact_tie:
  "similarityScore_double 172800000 austin_location
     \<lparr>td_type = vehicle, td_make = Some ''Tesla'', td_model = Some ''Model Y'',
      td_color = Some [], td_year = Some [], building_type = None, property_type = None\<rparr>
     [''arson''] (austin_case 7 0) = 1351079888211149 / 2251799813685248 \<and>
   similarityScore 172800000 austin_location
     \<lparr>td_type = vehicle, td_make = Some ''Tesla'', td_model = Some ''Model Y'',
      td_color = Some [], td_year = Some [], building_type = None, property_type = None\<rparr>
     [''arson''] (austin_case 7 0) = 6 / 10"
  by code_simp

text \<open>
  Claim C2. The score that the callback of \<^verbatim>\<open>findPotentialDuplicates\<close> computes for a
  candidate is the sum, taken from 0 in the arithmetic of the code and in this order, of
  the terms that apply: 0.3 when the candidate's city is the post's city, and 0.1 when the
  states are equal as well; 0.2 when the target types are equal, and 0.2 more when the
  type is vehicle and make and model are equal; 0.2 times the number of the post's tags
  found on the candidate divided by the number of the post's tags, when at least one is
  found; 0.2 times \<open>1 - h/48\<close> when the age \<open>h\<close> of the candidate in hours is below 48.
  For a post of two tags of which exactly one is on the candidate the damage term is
  \<open>0.2 * 0.5\<close>.
\<close>

theorem C2_double_score_is_weighted_sum:
  "similarityScore_double now li td dmg c =
     double_sum (location_terms li c @ target_terms td c @ damage_terms dmg c @
                 recency_terms now c)
   \<and> (damage_type c = Some tags \<and> a \<in> set tags \<and> b \<notin> set tags \<longrightarrow>
        damage_terms [a, b] c = [js_mul (js_lit 0.2) (js_lit 0.5)])"
proof -
  have "similarityScore_double now li td dmg c =
     double_sum (location_terms li c @ target_terms td c @ damage_terms dmg c @
                 recency_terms now c)"
    by (simp add: similarityScore_double_def location_terms_def target_terms_def
        damage_terms_def recency_terms_def age_hours_def hoursDiff_double_def double_sum_def
        strict_eq_def js_sub_def js_div_def Let_def length_ge1_iff split: option.splits)
  moreover have "damage_terms [a, b] c = [js_mul (js_lit 0.2) (js_lit 0.5)]"
    if "damage_type c = Some tags" "a \<in> set tags" "b \<notin> set tags"
    using that by (simp add: damage_terms_def js_div_def js_lit_def)
  ultimately show ?thesis
    by blast
qed

theorem C2_double_score_is_weighted_sum_witness:
  "damage_type (austin_case 1 0) = Some [''keying'', ''graffiti''] \<and>
   ''keying'' \<in> set [''keying'', ''graffiti''] \<and> ''arson'' \<notin> set [''keying'', ''graffiti''] \<and>
   similarityScore_double 7200000 austin_location model3_details [''keying'', ''arson'']
     (austin_case 1 0) = 614553699151599 / 562949953421312 \<and>
   damage_terms [''keying'', ''arson''] (austin_case 1 0) =
     [3602879701896397 / 36028797018963968] \<and>
   similarityScore_double 180000000
     \<lparr>city = Some ''Dallas'', state = Some ''TX'', country = Some ''US''\<rparr> model3_details
     [''keying'', ''arson''] (austin_case 1 0) = 1 / 2"
proof -
  have d: "damage_type (austin_case 1 0) = Some [''keying'', ''graffiti''] \<and>
      ''keying'' \<in> set [''keying'', ''graffiti''] \<and> ''arson'' \<notin> set [''keying'', ''graffiti'']"
    by (simp add: austin_case_def)
  note t = C2_double_score_is_weighted_sum [of 7200000 austin_location model3_details
      "[''keying'', ''arson'']" "austin_case 1 0" "[''keying'', ''graffiti'']" "''keying''" "''arson''"]
  from t have a: "similarityScore_double 7200000 austin_location model3_details
     [''keying'', ''arson''] (austin_case 1 0) = 614553699151599 / 562949953421312"
    by (simp only: austin_terms_sum)
  from t d have "damage_terms [''keying'', ''arson''] (austin_case 1 0) =
     [js_mul (js_lit 0.2) (js_lit 0.5)]"
    by blast
  then have b: "damage_terms [''keying'', ''arson''] (austin_case 1 0) =
     [3602879701896397 / 36028797018963968]"
    by (simp only: half_of_fifth)
  from C2_double_score_is_weighted_sum [of 180000000
      "\<lparr>city = Some ''Dallas'', state = Some ''TX'', country = Some ''US''\<rparr>" model3_details
      "[''keying'', ''arson'']" "austin_case 1 0"]
  have c: "similarityScore_double 180000000
     \<lparr>city = Some ''Dallas'', state = Some ''TX'', country = Some ''US''\<rparr> model3_details
     [''keying'', ''arson''] (austin_case 1 0) = 1 / 2"
    by (simp only: dallas_terms_sum)
  from d a b c show ?thesis
    by blast
qed



subsection \<open>Classification of the supercharger post\<close>

lemma lower_supercharger_post:
  "toLowerCase ''Tesla Supercharger station spray painted'' =
     ''tesla supercharger station spray painted''"
  by (simp add: toLowerCase_def lower_char_def)

lemma determineBuildingType_empty: "determineBuildingType [] = ''other''"
  by (simp add: determineBuildingType_def toLowerCase_def)

text \<open>
  Claim C5. For the post "Tesla Supercharger station spray painted" the target type is
  \<open>building\<close> and the damage tags are \<open>[graffiti]\<close>, but \<^verbatim>\<open>createTargetDetails\<close> derives the
  building type from \<^verbatim>\<open>analysis.text\<close>, a property the analyzer never sets, and not from
  the content: with the analyzer's output the stored building type is \<open>other\<close>. The
  headline, which reads the content, says \<open>supercharger\<close>.
\<close>

theorem C5_supercharger_post_building_type:
  "determineTargetType ''Tesla Supercharger station spray painted'' bare_analysis = building \<and>
   determineDamageType ''Tesla Supercharger station spray painted'' bare_analysis = [''graffiti''] \<and>
   building_type (createTargetDetails
       (determineTargetType ''Tesla Supercharger station spray painted'' bare_analysis)
       bare_analysis) = Some ''other'' \<and>
   determineBuildingType ''Tesla Supercharger station spray painted'' = ''supercharger'' \<and>
   generateHeadline ''Tesla Supercharger station spray painted'' bare_analysis building =
     ''Tesla supercharger vandalized: Tagged with graffiti''"
proof -
  have tt: "determineTargetType ''Tesla Supercharger station spray painted'' bare_analysis = building"
    by (simp add: determineTargetType_def lower_supercharger_post)
  have dt: "determineDamageType ''Tesla Supercharger station spray painted'' bare_analysis
      = [''graffiti'']"
    by (simp add: determineDamageType_def lower_supercharger_post)
  have bt: "determineBuildingType ''Tesla Supercharger station spray painted'' = ''supercharger''"
    by (simp add: determineBuildingType_def lower_supercharger_post)
  have td: "building_type (createTargetDetails building bare_analysis) = Some ''other''"
    by (simp add: createTargetDetails_def bare_analysis_def or_default_def
        determineBuildingType_empty)
  have hl: "generateHeadline ''Tesla Supercharger station spray painted'' bare_analysis building =
     ''Tesla supercharger vandalized: Tagged with graffiti''"
    by (simp add: generateHeadline_def bt dt)
       (simp add: bare_analysis_def loc_city_def truthy_def)
  show ?thesis
    by (simp only: tt dt bt td hl simp_thms)
qed

subsection \<open>Effects of the repository operations\<close>

lemma grown_append [simp]: "grown xs (xs @ ys)"
  by (simp add: grown_def)

lemma added_append [simp]: "added xs (xs @ ys) = ys"
  by (simp add: added_def)

lemma grown_refl [simp]: "grown xs xs"
  by (simp add: grown_def)

lemma added_refl [simp]: "added xs xs = []"
  by (simp add: added_def)

lemma repo_attempt_effect:
  assumes "repo_attempt k d = (f, d')"
  shows "cases_tbl d' = cases_tbl d" "sources_tbl d' = sources_tbl d"
    "updates_tbl d' = updates_tbl d" "media_tbl d' = media_tbl d"
    "related_tbl d' = related_tbl d" "next_id d' = next_id d"
    "log d' = log d @ [(k, f)]" "faults d = [] \<Longrightarrow> \<not> f \<and> faults d' = []"
  using assms by (auto simp: repo_attempt_def split: list.splits)

lemma createCaseUpdate_effect:
  assumes "createCaseUpdate u d = (r, d')"
  shows "cases_tbl d' = cases_tbl d" "sources_tbl d' = sources_tbl d"
    "media_tbl d' = media_tbl d" "related_tbl d' = related_tbl d" "next_id d' = next_id d"
    "updates_tbl d' = updates_tbl d @ (if isl r then [] else [u])"
    "log d' = log d @ [(InsertUpdate, isl r)]"
    "faults d = [] \<Longrightarrow> r = Inr () \<and> faults d' = []"
  using assms
  by (auto simp: createCaseUpdate_def repo_attempt_def split: list.splits if_splits)

lemma single_stored:
  "filter (\<lambda>r. sr_platform r = p \<and> sr_platform_id r = q) xs = [x] \<Longrightarrow>
     \<exists>y\<in>set xs. sr_id y = sr_id x \<and> sr_platform y = p \<and> sr_platform_id y = q"
  by (auto simp: filter_eq_Cons_iff)

lemma linkSourceToCase_frame:
  assumes "linkSourceToCase s cid d = (r, d')"
  shows "cases_tbl d' = cases_tbl d" "media_tbl d' = media_tbl d"
    "related_tbl d' = related_tbl d" "next_id d \<le> next_id d'"
    "\<exists>S. sources_tbl d' = sources_tbl d @ S \<and> length S \<le> 1 \<and>
       (\<forall>x\<in>set S. sr_platform x = platform s \<and> sr_platform_id x = platform_id s)"
    "\<exists>U. updates_tbl d' = updates_tbl d @ U \<and> (\<forall>u\<in>set U. u_case_id u = cid)"
  using assms
  by (auto simp: linkSourceToCase_def select_source_id_def createCaseUpdate_def repo_attempt_def
      link_update_def new_source_row_def Let_def
      split: list.splits if_splits option.splits prod.splits sum.splits)

lemma linkSourceToCase_log:
  assumes "linkSourceToCase s cid d = (r, d')"
  shows "\<exists>L. log d' = log d @ L \<and>
       (isl r \<longleftrightarrow> (InsertSource, True) \<in> set L \<or> (InsertUpdate, True) \<in> set L) \<and>
       (\<forall>e\<in>set L. fst e \<in> {SelectSource, InsertSource, InsertUpdate})"
  using assms
  by (auto simp: linkSourceToCase_def select_source_id_def createCaseUpdate_def repo_attempt_def
      Let_def split: list.splits if_splits option.splits prod.splits sum.splits)

lemma linkSourceToCase_ok:
  assumes "linkSourceToCase s cid d = (r, d')" and "faults d = []"
  shows "faults d' = []"
    "\<exists>sid. r = Inr sid \<and> updates_tbl d' = updates_tbl d @ [link_update s cid sid] \<and>
       (\<exists>x\<in>set (sources_tbl d'). sr_id x = sid \<and> sr_platform x = platform s \<and>
          sr_platform_id x = platform_id s)"
    "length (stored s d) = 1 \<Longrightarrow> sources_tbl d' = sources_tbl d \<and> next_id d' = next_id d"
    "length (stored s d) \<noteq> 1 \<Longrightarrow>
       sources_tbl d' = sources_tbl d @ [new_source_row (next_id d) s] \<and>
       next_id d' = Suc (next_id d)"
  using assms
  by (auto simp: linkSourceToCase_def select_source_id_def createCaseUpdate_def repo_attempt_def
      stored_def new_source_row_def Let_def dest: single_stored
      split: list.splits if_splits option.splits prod.splits sum.splits)

lemma addMediaToCase_frame:
  "cases_tbl (addMediaToCase cid sid i ms d) = cases_tbl d \<and>
   sources_tbl (addMediaToCase cid sid i ms d) = sources_tbl d \<and>
   updates_tbl (addMediaToCase cid sid i ms d) = updates_tbl d \<and>
   related_tbl (addMediaToCase cid sid i ms d) = related_tbl d \<and>
   next_id (addMediaToCase cid sid i ms d) = next_id d \<and>
   (faults d = [] \<longrightarrow> faults (addMediaToCase cid sid i ms d) = [])"
  by (induction ms arbitrary: i d) (auto simp: repo_attempt_def split: list.splits)

lemma addMediaToCase_media:
  "\<exists>M. media_tbl (addMediaToCase cid sid i ms d) = media_tbl d @ M \<and>
       (\<forall>m\<in>set M. m_case_id m = cid)"
proof (induction ms arbitrary: i d)
  case Nil
  then show ?case by simp
next
  case (Cons m ms)
  obtain f d1 where a: "repo_attempt InsertMedia d = (f, d1)"
    by force
  let ?d2 = "if f then d1 else d1\<lparr>media_tbl := media_tbl d1 @ [new_media_row cid sid i m]\<rparr>"
  from Cons.IH [of "Suc i" ?d2] obtain M where
    M: "media_tbl (addMediaToCase cid sid (Suc i) ms ?d2) = media_tbl ?d2 @ M"
      "\<forall>x\<in>set M. m_case_id x = cid"
    by blast
  have "media_tbl ?d2 = media_tbl d @ (if f then [] else [new_media_row cid sid i m])"
    using repo_attempt_effect(4) [OF a] by simp
  with M a show ?case
    by (auto simp: new_media_row_def)
qed

lemma addMediaToCase_log:
  "\<exists>L. log (addMediaToCase cid sid i ms d) = log d @ L \<and> (\<forall>e\<in>set L. fst e = InsertMedia)"
proof (induction ms arbitrary: i d)
  case Nil
  then show ?case by simp
next
  case (Cons m ms)
  obtain f d1 where a: "repo_attempt InsertMedia d = (f, d1)"
    by force
  let ?d2 = "if f then d1 else d1\<lparr>media_tbl := media_tbl d1 @ [new_media_row cid sid i m]\<rparr>"
  from Cons.IH [of "Suc i" ?d2] obtain L where
    L: "log (addMediaToCase cid sid (Suc i) ms ?d2) = log ?d2 @ L" "\<forall>e\<in>set L. fst e = InsertMedia"
    by blast
  have "log ?d2 = log d @ [(InsertMedia, f)]"
    using repo_attempt_effect(7) [OF a] by simp
  with L a show ?case
    by auto
qed

lemma add_media_if_any_frame:
  "cases_tbl (add_media_if_any cid sid an d) = cases_tbl d \<and>
   sources_tbl (add_media_if_any cid sid an d) = sources_tbl d \<and>
   updates_tbl (add_media_if_any cid sid an d) = updates_tbl d \<and>
   related_tbl (add_media_if_any cid sid an d) = related_tbl d \<and>
   next_id (add_media_if_any cid sid an d) = next_id d \<and>
   (faults d = [] \<longrightarrow> faults (add_media_if_any cid sid an d) = [])"
  by (simp add: add_media_if_any_def addMediaToCase_frame split: option.splits)

lemma add_media_if_any_media:
  "\<exists>M. media_tbl (add_media_if_any cid sid an d) = media_tbl d @ M \<and>
       (\<forall>m\<in>set M. m_case_id m = cid)"
  using addMediaToCase_media [of cid sid 0 _ d]
  by (auto simp: add_media_if_any_def split: option.splits)

lemma add_media_if_any_log:
  "\<exists>L. log (add_media_if_any cid sid an d) = log d @ L \<and> (\<forall>e\<in>set L. fst e = InsertMedia)"
  using addMediaToCase_log [of cid sid 0 _ d]
  by (auto simp: add_media_if_any_def split: option.splits)

lemma linkRelatedCases_frame:
  "cases_tbl (linkRelatedCases a b ty w d) = cases_tbl d \<and>
   sources_tbl (linkRelatedCases a b ty w d) = sources_tbl d \<and>
   updates_tbl (linkRelatedCases a b ty w d) = updates_tbl d \<and>
   media_tbl (linkRelatedCases a b ty w d) = media_tbl d \<and>
   next_id (linkRelatedCases a b ty w d) = next_id d \<and>
   (\<exists>f. log (linkRelatedCases a b ty w d) = log d @ [(InsertRelated, f)]) \<and>
   (related_tbl (linkRelatedCases a b ty w d) = related_tbl d \<or>
    related_tbl (linkRelatedCases a b ty w d) = related_tbl d @ related_pair a b ty w) \<and>
   (faults d = [] \<longrightarrow> faults (linkRelatedCases a b ty w d) = [] \<and>
      related_tbl (linkRelatedCases a b ty w d) = related_tbl d @ related_pair a b ty w)"
  by (auto simp: linkRelatedCases_def repo_attempt_def split: list.splits)

lemma mirror_related_pair: "r \<in> set (related_pair a b ty w) \<Longrightarrow> mirror r \<in> set (related_pair a b ty w)"
  by (auto simp: related_pair_def mirror_def)

lemma link_possible_duplicates_frame:
  "cases_tbl (link_possible_duplicates n ps d) = cases_tbl d \<and>
   sources_tbl (link_possible_duplicates n ps d) = sources_tbl d \<and>
   updates_tbl (link_possible_duplicates n ps d) = updates_tbl d \<and>
   media_tbl (link_possible_duplicates n ps d) = media_tbl d \<and>
   next_id (link_possible_duplicates n ps d) = next_id d"
  by (induction ps arbitrary: d) (simp_all add: linkRelatedCases_frame)

lemma link_possible_duplicates_related:
  "\<exists>R. related_tbl (link_possible_duplicates n ps d) = related_tbl d @ R \<and>
     (\<forall>r\<in>set R. mirror r \<in> set R \<and>
        (\<exists>p\<in>set ps. 0.6 < snd p \<and>
           r \<in> set (related_pair n (c_id (fst p)) ''possible_duplicate'' (snd p))))"
proof (induction ps arbitrary: d)
  case Nil
  then show ?case by simp
next
  case (Cons p ps)
  let ?d1 = "if snd p > 0.6
    then linkRelatedCases n (c_id (fst p)) ''possible_duplicate'' (snd p) d else d"
  from Cons.IH [of ?d1] obtain R where
    R: "related_tbl (link_possible_duplicates n ps ?d1) = related_tbl ?d1 @ R"
      "\<forall>r\<in>set R. mirror r \<in> set R \<and>
        (\<exists>q\<in>set ps. 0.6 < snd q \<and>
           r \<in> set (related_pair n (c_id (fst q)) ''possible_duplicate'' (snd q)))"
    by blast
  have "related_tbl ?d1 = related_tbl d \<or>
      (0.6 < snd p \<and> related_tbl ?d1 =
         related_tbl d @ related_pair n (c_id (fst p)) ''possible_duplicate'' (snd p))"
    using linkRelatedCases_frame [of n "c_id (fst p)" "''possible_duplicate''" "snd p" d]
    by auto
  then show ?case
  proof
    assume "related_tbl ?d1 = related_tbl d"
    with R show ?thesis
      by (intro exI [of _ R]) auto
  next
    assume b: "0.6 < snd p \<and> related_tbl ?d1 =
         related_tbl d @ related_pair n (c_id (fst p)) ''possible_duplicate'' (snd p)"
    with R show ?thesis
      by (intro exI [of _ "related_pair n (c_id (fst p)) ''possible_duplicate'' (snd p) @ R"])
         (auto dest: mirror_related_pair)
  qed
qed

lemma link_possible_duplicates_log:
  "\<exists>L. log (link_possible_duplicates n ps d) = log d @ L \<and> (\<forall>e\<in>set L. fst e = InsertRelated)"
proof (induction ps arbitrary: d)
  case Nil
  then show ?case by simp
next
  case (Cons p ps)
  let ?d1 = "if snd p > 0.6
    then linkRelatedCases n (c_id (fst p)) ''possible_duplicate'' (snd p) d else d"
  from Cons.IH [of ?d1] obtain L where
    L: "log (link_possible_duplicates n ps ?d1) = log ?d1 @ L" "\<forall>e\<in>set L. fst e = InsertRelated"
    by blast
  have "log ?d1 = log d \<or> (\<exists>f. log ?d1 = log d @ [(InsertRelated, f)])"
    using linkRelatedCases_frame [of n "c_id (fst p)" "''possible_duplicate''" "snd p" d]
    by auto
  with L show ?case
    by auto
qed

lemma link_possible_duplicates_ok:
  "faults d = [] \<Longrightarrow>
   faults (link_possible_duplicates n ps d) = [] \<and>
   related_tbl (link_possible_duplicates n ps d) =
     related_tbl d @
     concat (map (\<lambda>p. related_pair n (c_id (fst p)) ''possible_duplicate'' (snd p))
       (filter (\<lambda>p. 0.6 < snd p) ps))"
  by (induction ps arbitrary: d) (simp_all add: linkRelatedCases_frame)

lemma sorted_desc_head:
  assumes "sort_key (\<lambda>p. - snd p) xs = (b :: 'a \<times> real) # rest"
  shows "\<forall>p\<in>set (b # rest). snd p \<le> snd b"
proof -
  have "sorted (map (\<lambda>p. - snd p) (sort_key (\<lambda>p. - snd p) xs))"
    by (rule sorted_sort_key)
  with assms show ?thesis
    by auto
qed

lemma candidate_rows_mem:
  "c \<in> set (candidate_rows li td d) \<Longrightarrow>
     c \<in> set (cases_tbl d) \<and> strict_eq (location_city c) (city li) \<and>
     target_type c = td_type td"
  by (auto simp: candidate_rows_def dest!: in_set_takeD)

lemma findPotentialDuplicates_effect:
  assumes "findPotentialDuplicates now li td dmg d = (ps, d')"
  shows "cases_tbl d' = cases_tbl d" "sources_tbl d' = sources_tbl d"
    "updates_tbl d' = updates_tbl d" "media_tbl d' = media_tbl d"
    "related_tbl d' = related_tbl d" "next_id d' = next_id d"
    "\<exists>f. log d' = log d @ [(SelectCases, f)] \<and> (f \<longrightarrow> ps = [])"
    "faults d = [] \<Longrightarrow> faults d' = []"
    "\<forall>p\<in>set ps. snd p = similarityScore now li td dmg (fst p) \<and> fst p \<in> set (cases_tbl d)"
  using assms
  by (auto simp: findPotentialDuplicates_def repo_attempt_def Let_def
      dest!: candidate_rows_mem split: list.splits if_splits)

lemma findPotentialDuplicates_sorted:
  assumes "findPotentialDuplicates now li td dmg d = (b # rest, d')"
  shows "\<forall>p\<in>set (b # rest). snd p \<le> snd b"
proof -
  from assms obtain xs where "sort_key (\<lambda>p. - snd p) xs = (b # rest)"
    by (auto simp: findPotentialDuplicates_def Let_def split: prod.splits if_splits)
  then show ?thesis
    by (rule sorted_desc_head)
qed

subsection \<open>The two branches and their composition\<close>

lemma attach_to_duplicate_cases:
  assumes "attach_to_duplicate s an cid d = (r, d')"
  obtains (link_failed) e where "linkSourceToCase s cid d = (Inl e, d')" "r = Inl e"
  | (linked) sid d1 r3 where "linkSourceToCase s cid d = (Inr sid, d1)"
      "createCaseUpdate (duplicate_update s cid) (add_media_if_any cid (s_id s) an d1) = (r3, d')"
      "r = (case r3 of Inl e \<Rightarrow> Inl e
            | Inr u \<Rightarrow> Inr \<lparr>caseId = cid, isNewCase = False, isDuplicate = True\<rparr>)"
  using assms
  by (auto simp: attach_to_duplicate_def Let_def split: prod.splits sum.splits)

lemma create_new_case_cases:
  assumes "create_new_case now s an ps d = (r, d')"
  obtains (insert_failed) "repo_attempt InsertCase d = (True, d')"
      "r = Inl (RepositoryError InsertCase)"
  | (link_failed) d1 e where "repo_attempt InsertCase d = (False, d1)"
      "linkSourceToCase s (next_id d)
         (d1\<lparr>cases_tbl := cases_tbl d @ [new_case_row (next_id d) now s an],
             next_id := Suc (next_id d)\<rparr>) = (Inl e, d')"
      "r = Inl e"
  | (created) d1 sid d3 where "repo_attempt InsertCase d = (False, d1)"
      "linkSourceToCase s (next_id d)
         (d1\<lparr>cases_tbl := cases_tbl d @ [new_case_row (next_id d) now s an],
             next_id := Suc (next_id d)\<rparr>) = (Inr sid, d3)"
      "d' = link_possible_duplicates (next_id d) ps (add_media_if_any (next_id d) (s_id s) an d3)"
      "r = Inr \<lparr>caseId = next_id d, isNewCase = True, isDuplicate = False\<rparr>"
proof -
  obtain f d1 where a: "repo_attempt InsertCase d = (f, d1)"
    by force
  note e = repo_attempt_effect [OF a]
  show thesis
  proof (cases f)
    case True
    with a assms insert_failed show ?thesis
      by (simp add: create_new_case_def)
  next
    case False
    let ?d2 = "d1\<lparr>cases_tbl := cases_tbl d @ [new_case_row (next_id d) now s an],
             next_id := Suc (next_id d)\<rparr>"
    obtain r2 d3 where b: "linkSourceToCase s (next_id d) ?d2 = (r2, d3)"
      by force
    show ?thesis
    proof (cases r2)
      case (Inl x)
      with a b False assms e(1,6) show ?thesis
        by (intro link_failed [of d1 x]) (simp_all add: create_new_case_def Let_def)
    next
      case (Inr sid)
      with a b False assms e(1,6) show ?thesis
        by (intro created [of d1 sid d3]) (auto simp: create_new_case_def Let_def)
    qed
  qed
qed

lemma createCaseFromSocialMedia_cases:
  assumes "createCaseFromSocialMedia now s an d = (r, d')"
  obtains (duplicate) best rest d1 where
      "findPotentialDuplicates now (search_location an)
         (createTargetDetails (determineTargetType (content s) an) an)
         (determineDamageType (content s) an) d = (best # rest, d1)"
      "0.85 < snd best" "attach_to_duplicate s an (c_id (fst best)) d1 = (r, d')"
  | (new_case) ps d1 where
      "findPotentialDuplicates now (search_location an)
         (createTargetDetails (determineTargetType (content s) an) an)
         (determineDamageType (content s) an) d = (ps, d1)"
      "\<forall>p\<in>set ps. snd p \<le> 0.85" "create_new_case now s an ps d1 = (r, d')"
proof -
  obtain ps d1 where a: "findPotentialDuplicates now (search_location an)
         (createTargetDetails (determineTargetType (content s) an) an)
         (determineDamageType (content s) an) d = (ps, d1)"
    by force
  show thesis
  proof (cases ps)
    case Nil
    with a assms show ?thesis
      by (intro new_case [of ps d1]) (simp_all add: createCaseFromSocialMedia_def)
  next
    case (Cons best rest)
    show ?thesis
    proof (cases "0.85 < snd best")
      case True
      with a Cons assms show ?thesis
        by (intro duplicate [of best rest d1])
           (simp_all add: createCaseFromSocialMedia_def)
    next
      case False
      have "\<forall>p\<in>set ps. snd p \<le> snd best"
        using findPotentialDuplicates_sorted a Cons by blast
      with False have "\<forall>p\<in>set ps. snd p \<le> 0.85"
        by fastforce
      with a Cons False assms show ?thesis
        by (intro new_case [of ps d1])
           (simp_all add: createCaseFromSocialMedia_def)
    qed
  qed
qed

lemma attach_to_duplicate_frame:
  assumes "attach_to_duplicate s an cid d = (r, d')"
  shows "cases_tbl d' = cases_tbl d" "related_tbl d' = related_tbl d"
    "\<exists>S. sources_tbl d' = sources_tbl d @ S \<and> length S \<le> 1 \<and>
       (\<forall>x\<in>set S. sr_platform x = platform s \<and> sr_platform_id x = platform_id s)"
    "\<exists>U. updates_tbl d' = updates_tbl d @ U \<and> (\<forall>u\<in>set U. u_case_id u = cid)"
    "\<exists>M. media_tbl d' = media_tbl d @ M \<and> (\<forall>m\<in>set M. m_case_id m = cid)"
proof -
  have "cases_tbl d' = cases_tbl d \<and> related_tbl d' = related_tbl d \<and>
    (\<exists>S. sources_tbl d' = sources_tbl d @ S \<and> length S \<le> 1 \<and>
       (\<forall>x\<in>set S. sr_platform x = platform s \<and> sr_platform_id x = platform_id s)) \<and>
    (\<exists>U. updates_tbl d' = updates_tbl d @ U \<and> (\<forall>u\<in>set U. u_case_id u = cid)) \<and>
    (\<exists>M. media_tbl d' = media_tbl d @ M \<and> (\<forall>m\<in>set M. m_case_id m = cid))"
    using assms
  proof (cases rule: attach_to_duplicate_cases)
    case (link_failed e)
    from linkSourceToCase_frame [OF link_failed(1)] show ?thesis
      by simp
  next
    case (linked sid d1 r3)
    let ?d2 = "add_media_if_any cid (s_id s) an d1"
    note l = linkSourceToCase_frame [OF linked(1)]
    note m = add_media_if_any_frame [of cid "s_id s" an d1]
    note u = createCaseUpdate_effect [OF linked(2)]
    from add_media_if_any_media [of cid "s_id s" an d1] obtain M where
      M: "media_tbl ?d2 = media_tbl d1 @ M" "\<forall>m\<in>set M. m_case_id m = cid"
      by blast
    from l(6) obtain U where U: "updates_tbl d1 = updates_tbl d @ U" "\<forall>u\<in>set U. u_case_id u = cid"
      by blast
    have c: "cases_tbl d' = cases_tbl d" "related_tbl d' = related_tbl d"
      using l(1,3) m u(1,4) by simp_all
    have so: "sources_tbl d' = sources_tbl d1"
      using m u(2) by simp
    have me: "media_tbl d' = media_tbl d @ M"
      using u(3) M(1) l(2) by simp
    have up: "updates_tbl d' =
        updates_tbl d @ (U @ (if isl r3 then [] else [duplicate_update s cid]))"
      using u(6) m U(1) by simp
    have "\<forall>u\<in>set (U @ (if isl r3 then [] else [duplicate_update s cid])). u_case_id u = cid"
      using U(2) by (simp add: duplicate_update_def)
    with up have "\<exists>U. updates_tbl d' = updates_tbl d @ U \<and> (\<forall>u\<in>set U. u_case_id u = cid)"
      by blast
    with c so me M(2) l(5) show ?thesis
      by auto
  qed
  then show "cases_tbl d' = cases_tbl d" "related_tbl d' = related_tbl d"
    "\<exists>S. sources_tbl d' = sources_tbl d @ S \<and> length S \<le> 1 \<and>
       (\<forall>x\<in>set S. sr_platform x = platform s \<and> sr_platform_id x = platform_id s)"
    "\<exists>U. updates_tbl d' = updates_tbl d @ U \<and> (\<forall>u\<in>set U. u_case_id u = cid)"
    "\<exists>M. media_tbl d' = media_tbl d @ M \<and> (\<forall>m\<in>set M. m_case_id m = cid)"
    by simp_all
qed


lemma attach_to_duplicate_ok:
  assumes "attach_to_duplicate s an cid d = (r, d')" and "faults d = []"
  shows "faults d' = []"
    "r = Inr \<lparr>caseId = cid, isNewCase = False, isDuplicate = True\<rparr>"
    "\<exists>sid. updates_tbl d' = updates_tbl d @ [link_update s cid sid, duplicate_update s cid] \<and>
       (\<exists>x\<in>set (sources_tbl d'). sr_id x = sid \<and> sr_platform x = platform s \<and>
          sr_platform_id x = platform_id s)"
    "length (stored s d) = 1 \<Longrightarrow> sources_tbl d' = sources_tbl d"
    "length (stored s d) \<noteq> 1 \<Longrightarrow> sources_tbl d' = sources_tbl d @ [new_source_row (next_id d) s]"
proof -
  have "faults d' = [] \<and> r = Inr \<lparr>caseId = cid, isNewCase = False, isDuplicate = True\<rparr> \<and>
    (\<exists>sid. updates_tbl d' = updates_tbl d @ [link_update s cid sid, duplicate_update s cid] \<and>
       (\<exists>x\<in>set (sources_tbl d'). sr_id x = sid \<and> sr_platform x = platform s \<and>
          sr_platform_id x = platform_id s)) \<and>
    (length (stored s d) = 1 \<longrightarrow> sources_tbl d' = sources_tbl d) \<and>
    (length (stored s d) \<noteq> 1 \<longrightarrow> sources_tbl d' = sources_tbl d @ [new_source_row (next_id d) s])"
    using assms(1)
  proof (cases rule: attach_to_duplicate_cases)
    case (link_failed e)
    with linkSourceToCase_ok(2) [OF link_failed(1) assms(2)] show ?thesis
      by simp
  next
    case (linked sid d1 r3)
    let ?d2 = "add_media_if_any cid (s_id s) an d1"
    note l = linkSourceToCase_ok [OF linked(1) assms(2)]
    note m = add_media_if_any_frame [of cid "s_id s" an d1]
    have f2: "faults ?d2 = []"
      using l(1) m by simp
    note u = createCaseUpdate_effect [OF linked(2)]
    have r3: "r3 = Inr ()" and f3: "faults d' = []"
      using u(8) [OF f2] by simp_all
    have so: "sources_tbl d' = sources_tbl d1"
      using m u(2) by simp
    have up: "updates_tbl d' = updates_tbl d1 @ [duplicate_update s cid]"
      using u(6) m r3 by simp
    from l(2) obtain sid' where sid': "updates_tbl d1 = updates_tbl d @ [link_update s cid sid']"
      "\<exists>x\<in>set (sources_tbl d1). sr_id x = sid' \<and> sr_platform x = platform s \<and>
          sr_platform_id x = platform_id s"
      by auto
    have "\<exists>sid. updates_tbl d' = updates_tbl d @ [link_update s cid sid, duplicate_update s cid] \<and>
       (\<exists>x\<in>set (sources_tbl d'). sr_id x = sid \<and> sr_platform x = platform s \<and>
          sr_platform_id x = platform_id s)"
      using sid' up so by (intro exI [of _ sid']) simp
    with f3 r3 linked(3) so l(3,4) show ?thesis
      by simp
  qed
  then show "faults d' = []"
    "r = Inr \<lparr>caseId = cid, isNewCase = False, isDuplicate = True\<rparr>"
    "\<exists>sid. updates_tbl d' = updates_tbl d @ [link_update s cid sid, duplicate_update s cid] \<and>
       (\<exists>x\<in>set (sources_tbl d'). sr_id x = sid \<and> sr_platform x = platform s \<and>
          sr_platform_id x = platform_id s)"
    "length (stored s d) = 1 \<Longrightarrow> sources_tbl d' = sources_tbl d"
    "length (stored s d) \<noteq> 1 \<Longrightarrow> sources_tbl d' = sources_tbl d @ [new_source_row (next_id d) s]"
    by simp_all
qed

lemma create_new_case_frame:
  assumes "create_new_case now s an ps d = (r, d')"
  shows "cases_tbl d' = cases_tbl d \<or> cases_tbl d' = cases_tbl d @ [new_case_row (next_id d) now s an]"
    "\<exists>S. sources_tbl d' = sources_tbl d @ S \<and> length S \<le> 1 \<and>
       (\<forall>x\<in>set S. sr_platform x = platform s \<and> sr_platform_id x = platform_id s)"
    "\<exists>U. updates_tbl d' = updates_tbl d @ U \<and> (\<forall>u\<in>set U. u_case_id u = next_id d)"
    "\<exists>M. media_tbl d' = media_tbl d @ M \<and> (\<forall>m\<in>set M. m_case_id m = next_id d)"
    "\<exists>R. related_tbl d' = related_tbl d @ R \<and>
       (\<forall>x\<in>set R. mirror x \<in> set R \<and>
          (\<exists>p\<in>set ps. 0.6 < snd p \<and>
             x \<in> set (related_pair (next_id d) (c_id (fst p)) ''possible_duplicate'' (snd p))))"
proof -
  have "(cases_tbl d' = cases_tbl d \<or>
       cases_tbl d' = cases_tbl d @ [new_case_row (next_id d) now s an]) \<and>
    (\<exists>S. sources_tbl d' = sources_tbl d @ S \<and> length S \<le> 1 \<and>
       (\<forall>x\<in>set S. sr_platform x = platform s \<and> sr_platform_id x = platform_id s)) \<and>
    (\<exists>U. updates_tbl d' = updates_tbl d @ U \<and> (\<forall>u\<in>set U. u_case_id u = next_id d)) \<and>
    (\<exists>M. media_tbl d' = media_tbl d @ M \<and> (\<forall>m\<in>set M. m_case_id m = next_id d)) \<and>
    (\<exists>R. related_tbl d' = related_tbl d @ R \<and>
       (\<forall>x\<in>set R. mirror x \<in> set R \<and>
          (\<exists>p\<in>set ps. 0.6 < snd p \<and>
             x \<in> set (related_pair (next_id d) (c_id (fst p)) ''possible_duplicate'' (snd p)))))"
    using assms
  proof (cases rule: create_new_case_cases)
    case insert_failed
    from repo_attempt_effect [OF insert_failed(1)] show ?thesis
      by simp
  next
    case (link_failed d1 e)
    note a = repo_attempt_effect [OF link_failed(1)]
    note l = linkSourceToCase_frame [OF link_failed(2)]
    from a l show ?thesis
      by simp
  next
    case (created d1 sid d3)
    let ?n = "next_id d"
    let ?d4 = "add_media_if_any ?n (s_id s) an d3"
    note a = repo_attempt_effect [OF created(1)]
    note l = linkSourceToCase_frame [OF created(2)]
    note m = add_media_if_any_frame [of ?n "s_id s" an d3]
    note k = link_possible_duplicates_frame [of ?n ps ?d4]
    from add_media_if_any_media [of ?n "s_id s" an d3] obtain M where
      M: "media_tbl ?d4 = media_tbl d3 @ M" "\<forall>m\<in>set M. m_case_id m = ?n"
      by blast
    from link_possible_duplicates_related [of ?n ps ?d4] obtain R where
      R: "related_tbl d' = related_tbl ?d4 @ R"
        "\<forall>x\<in>set R. mirror x \<in> set R \<and>
          (\<exists>p\<in>set ps. 0.6 < snd p \<and>
             x \<in> set (related_pair ?n (c_id (fst p)) ''possible_duplicate'' (snd p)))"
      using created(3) by blast
    have c: "cases_tbl d' = cases_tbl d @ [new_case_row ?n now s an]"
      using created(3) k m l(1) by simp
    have so: "sources_tbl d' = sources_tbl d3" and up: "updates_tbl d' = updates_tbl d3"
      using created(3) k m by simp_all
    have me: "media_tbl d' = media_tbl d @ M"
      using created(3) k M(1) l(2) a(4) by simp
    have re: "related_tbl d' = related_tbl d @ R"
      using R(1) m l(3) a(5) by simp
    from c so up me re M(2) R(2) l(5,6) a(2,3) show ?thesis
      by simp
  qed
  then show "cases_tbl d' = cases_tbl d \<or>
      cases_tbl d' = cases_tbl d @ [new_case_row (next_id d) now s an]"
    "\<exists>S. sources_tbl d' = sources_tbl d @ S \<and> length S \<le> 1 \<and>
       (\<forall>x\<in>set S. sr_platform x = platform s \<and> sr_platform_id x = platform_id s)"
    "\<exists>U. updates_tbl d' = updates_tbl d @ U \<and> (\<forall>u\<in>set U. u_case_id u = next_id d)"
    "\<exists>M. media_tbl d' = media_tbl d @ M \<and> (\<forall>m\<in>set M. m_case_id m = next_id d)"
    "\<exists>R. related_tbl d' = related_tbl d @ R \<and>
       (\<forall>x\<in>set R. mirror x \<in> set R \<and>
          (\<exists>p\<in>set ps. 0.6 < snd p \<and>
             x \<in> set (related_pair (next_id d) (c_id (fst p)) ''possible_duplicate'' (snd p))))"
    by simp_all
qed

lemma create_new_case_log:
  assumes "create_new_case now s an ps d = (r, d')"
  shows "\<exists>L. log d' = log d @ L \<and>
       ((InsertCase, True) \<in> set L \<or> (InsertSource, True) \<in> set L \<or>
        (InsertUpdate, True) \<in> set L \<longrightarrow> isl r) \<and>
       (\<exists>f. (InsertCase, f) \<in> set L) \<and> (\<forall>e\<in>set L. fst e \<noteq> SelectCases)"
  using assms
proof (cases rule: create_new_case_cases)
  case insert_failed
  from repo_attempt_effect(7) [OF insert_failed(1)] insert_failed(2) show ?thesis
    by auto
next
  case (link_failed d1 e)
  have "log d1 = log d @ [(InsertCase, False)]"
    using repo_attempt_effect(7) [OF link_failed(1)] .
  moreover from linkSourceToCase_log [OF link_failed(2)] obtain L1 where
    L1: "log d' = log d1 @ L1" "\<forall>e\<in>set L1. fst e \<in> {SelectSource, InsertSource, InsertUpdate}"
    by auto
  ultimately have "log d' = log d @ ((InsertCase, False) # L1)"
    by simp
  with link_failed(3) L1(2) show ?thesis
    by (intro exI [of _ "(InsertCase, False) # L1"]) auto
next
  case (created d1 sid d3)
  let ?n = "next_id d"
  let ?d4 = "add_media_if_any ?n (s_id s) an d3"
  have a: "log d1 = log d @ [(InsertCase, False)]"
    using repo_attempt_effect(7) [OF created(1)] .
  from linkSourceToCase_log [OF created(2)] obtain L1 where
    L1: "log d3 = log d1 @ L1" "(InsertSource, True) \<notin> set L1" "(InsertUpdate, True) \<notin> set L1"
      "\<forall>e\<in>set L1. fst e \<in> {SelectSource, InsertSource, InsertUpdate}"
    by auto
  from add_media_if_any_log [of ?n "s_id s" an d3] obtain L2 where
    L2: "log ?d4 = log d3 @ L2" "\<forall>e\<in>set L2. fst e = InsertMedia"
    by blast
  from link_possible_duplicates_log [of ?n ps ?d4] obtain L3 where
    L3: "log d' = log ?d4 @ L3" "\<forall>e\<in>set L3. fst e = InsertRelated"
    using created(3) by blast
  have "log d' = log d @ ((InsertCase, False) # L1 @ L2 @ L3)"
    using a L1(1) L2(1) L3(1) by simp
  moreover have "(InsertCase, True) \<notin> set ((InsertCase, False) # L1 @ L2 @ L3)"
    using L1(4) L2(2) L3(2) by auto
  moreover have "(InsertSource, True) \<notin> set ((InsertCase, False) # L1 @ L2 @ L3)"
    using L1(2) L2(2) L3(2) by auto
  moreover have "(InsertUpdate, True) \<notin> set ((InsertCase, False) # L1 @ L2 @ L3)"
    using L1(3) L2(2) L3(2) by auto
  moreover have "\<forall>e\<in>set ((InsertCase, False) # L1 @ L2 @ L3). fst e \<noteq> SelectCases"
    using L1(4) L2(2) L3(2) by auto
  ultimately show ?thesis
    by (intro exI [of _ "(InsertCase, False) # L1 @ L2 @ L3"]) auto
qed

lemma stored_cong: "sources_tbl d' = sources_tbl d \<Longrightarrow> stored s d' = stored s d"
  by (simp add: stored_def)

lemma create_new_case_ok:
  assumes "create_new_case now s an ps d = (r, d')" and "faults d = []"
  shows "faults d' = []"
    "r = Inr \<lparr>caseId = next_id d, isNewCase = True, isDuplicate = False\<rparr>"
    "cases_tbl d' = cases_tbl d @ [new_case_row (next_id d) now s an]"
    "related_tbl d' = related_tbl d @
       concat (map (\<lambda>p. related_pair (next_id d) (c_id (fst p)) ''possible_duplicate'' (snd p))
         (filter (\<lambda>p. 0.6 < snd p) ps))"
    "\<exists>sid. updates_tbl d' = updates_tbl d @ [link_update s (next_id d) sid] \<and>
       (\<exists>x\<in>set (sources_tbl d'). sr_id x = sid \<and> sr_platform x = platform s \<and>
          sr_platform_id x = platform_id s)"
    "length (stored s d) = 1 \<Longrightarrow> sources_tbl d' = sources_tbl d"
    "length (stored s d) \<noteq> 1 \<Longrightarrow>
       sources_tbl d' = sources_tbl d @ [new_source_row (Suc (next_id d)) s]"
proof -
  have "faults d' = [] \<and>
    r = Inr \<lparr>caseId = next_id d, isNewCase = True, isDuplicate = False\<rparr> \<and>
    cases_tbl d' = cases_tbl d @ [new_case_row (next_id d) now s an] \<and>
    related_tbl d' = related_tbl d @
       concat (map (\<lambda>p. related_pair (next_id d) (c_id (fst p)) ''possible_duplicate'' (snd p))
         (filter (\<lambda>p. 0.6 < snd p) ps)) \<and>
    (\<exists>sid. updates_tbl d' = updates_tbl d @ [link_update s (next_id d) sid] \<and>
       (\<exists>x\<in>set (sources_tbl d'). sr_id x = sid \<and> sr_platform x = platform s \<and>
          sr_platform_id x = platform_id s)) \<and>
    (length (stored s d) = 1 \<longrightarrow> sources_tbl d' = sources_tbl d) \<and>
    (length (stored s d) \<noteq> 1 \<longrightarrow>
       sources_tbl d' = sources_tbl d @ [new_source_row (Suc (next_id d)) s])"
    using assms(1)
  proof (cases rule: create_new_case_cases)
    case insert_failed
    with repo_attempt_effect(8) [OF insert_failed(1) assms(2)] show ?thesis
      by simp
  next
    case (link_failed d1 e)
    let ?d2 = "d1\<lparr>cases_tbl := cases_tbl d @ [new_case_row (next_id d) now s an],
             next_id := Suc (next_id d)\<rparr>"
    have "faults ?d2 = []"
      using repo_attempt_effect(8) [OF link_failed(1) assms(2)] by simp
    from linkSourceToCase_ok(2) [OF link_failed(2) this] show ?thesis
      by simp
  next
    case (created d1 sid d3)
    let ?n = "next_id d"
    let ?d2 = "d1\<lparr>cases_tbl := cases_tbl d @ [new_case_row ?n now s an],
             next_id := Suc ?n\<rparr>"
    let ?d4 = "add_media_if_any ?n (s_id s) an d3"
    note a = repo_attempt_effect [OF created(1)]
    have f2: "faults ?d2 = []"
      using a(8) [OF assms(2)] by simp
    have st: "stored s ?d2 = stored s d"
      using a(2) by (simp add: stored_def)
    note l = linkSourceToCase_ok [OF created(2) f2]
    note lf = linkSourceToCase_frame [OF created(2)]
    note m = add_media_if_any_frame [of ?n "s_id s" an d3]
    have f4: "faults ?d4 = []"
      using l(1) m by simp
    note k = link_possible_duplicates_frame [of ?n ps ?d4]
    note ko = link_possible_duplicates_ok [OF f4, of ?n ps]
    have c: "cases_tbl d' = cases_tbl d @ [new_case_row ?n now s an]"
      using created(3) k m lf(1) by simp
    have so: "sources_tbl d' = sources_tbl d3" and up: "updates_tbl d' = updates_tbl d3"
      using created(3) k m by simp_all
    have re: "related_tbl d' = related_tbl d @
       concat (map (\<lambda>p. related_pair ?n (c_id (fst p)) ''possible_duplicate'' (snd p))
         (filter (\<lambda>p. 0.6 < snd p) ps))"
      using created(3) ko m lf(3) a(5) by simp
    have fd: "faults d' = []"
      using created(3) ko by simp
    have s1: "length (stored s d) = 1 \<longrightarrow> sources_tbl d' = sources_tbl d"
      using l(3) st so a(2) by simp
    have s2: "length (stored s d) \<noteq> 1 \<longrightarrow>
       sources_tbl d' = sources_tbl d @ [new_source_row (Suc ?n) s]"
      using l(4) st so a(2) by simp
    have "\<exists>sid. updates_tbl d' = updates_tbl d @ [link_update s ?n sid] \<and>
       (\<exists>x\<in>set (sources_tbl d'). sr_id x = sid \<and> sr_platform x = platform s \<and>
          sr_platform_id x = platform_id s)"
      using l(2) so up a(3) by auto
    with fd created(4) c re s1 s2 show ?thesis
      by simp
  qed
  then show "faults d' = []"
    "r = Inr \<lparr>caseId = next_id d, isNewCase = True, isDuplicate = False\<rparr>"
    "cases_tbl d' = cases_tbl d @ [new_case_row (next_id d) now s an]"
    "related_tbl d' = related_tbl d @
       concat (map (\<lambda>p. related_pair (next_id d) (c_id (fst p)) ''possible_duplicate'' (snd p))
         (filter (\<lambda>p. 0.6 < snd p) ps))"
    "\<exists>sid. updates_tbl d' = updates_tbl d @ [link_update s (next_id d) sid] \<and>
       (\<exists>x\<in>set (sources_tbl d'). sr_id x = sid \<and> sr_platform x = platform s \<and>
          sr_platform_id x = platform_id s)"
    "length (stored s d) = 1 \<Longrightarrow> sources_tbl d' = sources_tbl d"
    "length (stored s d) \<noteq> 1 \<Longrightarrow>
       sources_tbl d' = sources_tbl d @ [new_source_row (Suc (next_id d)) s]"
    by simp_all
qed

subsection \<open>The scenario of the two Austin reports\<close>

lemma lower_second:
  "toLowerCase ''Tesla Model 3 vandalized in Austin, TX, scratched with key'' =
     ''tesla model 3 vandalized in austin, tx, scratched with key''"
  by (simp add: toLowerCase_def lower_char_def)

lemma second_report_type: "determineTargetType (content second_report) an = vehicle"
  by (simp add: second_report_def tweet_def determineTargetType_def lower_second)

lemma second_report_damage: "determineDamageType (content second_report) an = [''keying'']"
  by (simp add: second_report_def tweet_def determineDamageType_def lower_second)

lemma austin_details: "createTargetDetails vehicle austin_analysis = model3_details"
  by (simp add: createTargetDetails_def austin_analysis_def model3_details_def or_default_def
      vehicle_model_def vehicle_color_def vehicle_year_def)

lemma austin_search_location: "search_location austin_analysis = austin_location"
  by (simp add: search_location_def austin_analysis_def austin_location_def)

lemma austin_case_score:
  "similarityScore 7200000 austin_location model3_details [''keying''] (austin_case 7 0) = 143 / 120"
  by (simp add: similarityScore_def austin_location_def austin_case_def model3_details_def
      strict_eq_def hoursDiff_def)

lemma one_case_db_fields:
  "cases_tbl (one_case_db fs) = [austin_case 7 0]" "sources_tbl (one_case_db fs) = []"
  "updates_tbl (one_case_db fs) = []" "media_tbl (one_case_db fs) = []"
  "related_tbl (one_case_db fs) = []" "next_id (one_case_db fs) = 8"
  "faults (one_case_db fs) = fs" "log (one_case_db fs) = []"
  by (simp_all add: one_case_db_def)

lemma one_case_candidates:
  "candidate_rows austin_location model3_details (one_case_db fs) = [austin_case 7 0]"
  by (simp add: candidate_rows_def one_case_db_def austin_location_def model3_details_def
      austin_case_def strict_eq_def)

lemma candidate_rows_upd:
  "candidate_rows li td (d\<lparr>log := b\<rparr>) = candidate_rows li td d"
  "candidate_rows li td (d\<lparr>faults := a\<rparr>) = candidate_rows li td d"
  by (simp_all add: candidate_rows_def)

lemma second_report_search:
  "search_result 7200000 second_report austin_analysis (one_case_db fs) =
     (if fs \<noteq> [] \<and> hd fs then [] else [(austin_case 7 0, 143 / 120)])"
  by (cases fs)
    (simp_all add: search_result_def second_report_type second_report_damage austin_details
      austin_search_location findPotentialDuplicates_def repo_attempt_def candidate_rows_upd
      one_case_candidates austin_case_score one_case_db_fields Let_def)

lemma austin_no_media: "a_mediaUrls austin_analysis = None"
  by (simp add: austin_analysis_def)

lemma second_report_run:
  "createCaseFromSocialMedia 7200000 second_report austin_analysis (one_case_db []) =
     (Inr \<lparr>caseId = 7, isNewCase = False, isDuplicate = True\<rparr>,
      \<lparr>cases_tbl = [austin_case 7 0], sources_tbl = [new_source_row 8 second_report],
       updates_tbl = [link_update second_report 7 8, duplicate_update second_report 7],
       media_tbl = [], related_tbl = [], next_id = 9, faults = [],
       log = [(SelectCases, False), (SelectSource, False), (InsertSource, False),
              (InsertUpdate, False), (InsertUpdate, False)]\<rparr>)"
  by (simp add: createCaseFromSocialMedia_def second_report_type second_report_damage
      austin_details austin_search_location findPotentialDuplicates_def repo_attempt_def
      candidate_rows_upd one_case_candidates austin_case_score one_case_db_fields Let_def
      attach_to_duplicate_def linkSourceToCase_def select_source_id_def createCaseUpdate_def
      add_media_if_any_def austin_no_media)
    (simp add: one_case_db_def austin_case_def)

lemma lower_third:
  "toLowerCase ''Tesla Model Y keyed in Austin, TX'' = ''tesla model y keyed in austin, tx''"
  by (simp add: toLowerCase_def lower_char_def)

lemma third_report_type: "determineTargetType (content third_report) an = vehicle"
  by (simp add: third_report_def tweet_def determineTargetType_def lower_third)

lemma third_report_damage: "determineDamageType (content third_report) an = [''keying'']"
  by (simp add: third_report_def tweet_def determineDamageType_def lower_third)

lemma modely_details: "createTargetDetails vehicle modely_analysis = modely_details"
  by (simp add: createTargetDetails_def modely_analysis_def modely_details_def or_default_def
      vehicle_model_def vehicle_color_def vehicle_year_def)

lemma modely_search_location: "search_location modely_analysis = austin_location"
  by (simp add: search_location_def modely_analysis_def austin_location_def)

lemma modely_no_media: "a_mediaUrls modely_analysis = None"
  by (simp add: modely_analysis_def)

lemma modely_case_score:
  "similarityScore 172800000 austin_location modely_details [''keying''] (austin_case 7 0) = 4 / 5"
  by (simp add: similarityScore_def austin_location_def austin_case_def model3_details_def
      modely_details_def strict_eq_def hoursDiff_def)

lemma modely_candidates:
  "candidate_rows austin_location modely_details (one_case_db fs) = [austin_case 7 0]"
  by (simp add: candidate_rows_def one_case_db_def austin_location_def modely_details_def
      austin_case_def strict_eq_def)

lemma third_report_search:
  "search_result 172800000 third_report modely_analysis (one_case_db fs) =
     (if fs \<noteq> [] \<and> hd fs then [] else [(austin_case 7 0, 4 / 5)])"
  by (cases fs)
    (simp_all add: search_result_def third_report_type third_report_damage modely_details
      modely_search_location findPotentialDuplicates_def repo_attempt_def candidate_rows_upd
      modely_candidates modely_case_score one_case_db_fields Let_def)

lemma third_report_run:
  "createCaseFromSocialMedia 172800000 third_report modely_analysis (one_case_db []) =
     (Inr \<lparr>caseId = 8, isNewCase = True, isDuplicate = False\<rparr>,
      \<lparr>cases_tbl = [austin_case 7 0, new_case_row 8 172800000 third_report modely_analysis],
       sources_tbl = [new_source_row 9 third_report],
       updates_tbl = [link_update third_report 8 9],
       media_tbl = [], related_tbl = related_pair 8 7 ''possible_duplicate'' (4 / 5),
       next_id = 10, faults = [],
       log = [(SelectCases, False), (InsertCase, False), (SelectSource, False),
              (InsertSource, False), (InsertUpdate, False), (InsertRelated, False)]\<rparr>)"
  by (simp add: createCaseFromSocialMedia_def third_report_type third_report_damage
      modely_details modely_search_location findPotentialDuplicates_def repo_attempt_def
      candidate_rows_upd modely_candidates modely_case_score one_case_db_fields Let_def
      create_new_case_def linkSourceToCase_def select_source_id_def createCaseUpdate_def
      add_media_if_any_def modely_no_media linkRelatedCases_def)
    (simp add: one_case_db_def austin_case_def)



subsection \<open>Claims about the decision procedure\<close>

lemma search_result_eq:
  "findPotentialDuplicates now (search_location an)
     (createTargetDetails (determineTargetType (content s) an) an)
     (determineDamageType (content s) an) d = (ps, d1) \<Longrightarrow> search_result now s an d = ps"
  by (simp add: search_result_def)

text \<open>
  Claim C10. When the best candidate scores above 0.85, resolving the post leaves the
  table of cases as it was (so every column of the matched case keeps its value) and
  creates no link; whatever the outcome of the repository calls, it only appends: at
  most one source row, carrying the key of the post, and case updates and case media
  that all reference the matched case.
\<close>

theorem C10_duplicate_path_only_appends:
  assumes "createCaseFromSocialMedia now s an d = (r, d')"
    and "search_result now s an d = best # rest" and "0.85 < snd best"
  shows "cases_tbl d' = cases_tbl d \<and> fst best \<in> set (cases_tbl d') \<and>
    related_tbl d' = related_tbl d \<and>
    grown (sources_tbl d) (sources_tbl d') \<and>
    length (added (sources_tbl d) (sources_tbl d')) \<le> 1 \<and>
    (\<forall>x\<in>set (added (sources_tbl d) (sources_tbl d')).
       sr_platform x = platform s \<and> sr_platform_id x = platform_id s) \<and>
    grown (updates_tbl d) (updates_tbl d') \<and>
    (\<forall>u\<in>set (added (updates_tbl d) (updates_tbl d')). u_case_id u = c_id (fst best)) \<and>
    grown (media_tbl d) (media_tbl d') \<and>
    (\<forall>m\<in>set (added (media_tbl d) (media_tbl d')). m_case_id m = c_id (fst best))"
  using assms(1)
proof (cases rule: createCaseFromSocialMedia_cases)
  case (duplicate best' rest' d1)
  have b: "best' = best"
    using search_result_eq [OF duplicate(1)] assms(2) by simp
  note f = findPotentialDuplicates_effect [OF duplicate(1)]
  note a = attach_to_duplicate_frame [OF duplicate(3)]
  have "fst best \<in> set (cases_tbl d)"
    using f(9) b by simp
  moreover from a(3) f(2) obtain S where "sources_tbl d' = sources_tbl d @ S" "length S \<le> 1"
    "\<forall>x\<in>set S. sr_platform x = platform s \<and> sr_platform_id x = platform_id s"
    by auto
  moreover from a(4) f(3) b obtain U where "updates_tbl d' = updates_tbl d @ U"
    "\<forall>u\<in>set U. u_case_id u = c_id (fst best)"
    by auto
  moreover from a(5) f(4) b obtain M where "media_tbl d' = media_tbl d @ M"
    "\<forall>m\<in>set M. m_case_id m = c_id (fst best)"
    by auto
  ultimately show ?thesis
    using a(1,2) f(1,5) by simp
next
  case (new_case ps d1)
  have "ps = best # rest"
    using search_result_eq [OF new_case(1)] assms(2) by simp
  with new_case(2) assms(3) show ?thesis
    by simp
qed

theorem C10_duplicate_path_only_appends_witness:
  "search_result 7200000 second_report austin_analysis (one_case_db []) =
     [(austin_case 7 0, 143 / 120)] \<and>
   (0.85 :: real) < 143 / 120 \<and>
   cases_tbl (snd (createCaseFromSocialMedia 7200000 second_report austin_analysis (one_case_db [])))
     = [austin_case 7 0] \<and>
   related_tbl (snd (createCaseFromSocialMedia 7200000 second_report austin_analysis (one_case_db [])))
     = [] \<and>
   map u_case_id (updates_tbl
     (snd (createCaseFromSocialMedia 7200000 second_report austin_analysis (one_case_db []))))
     = [7, 7]"
proof -
  have s: "search_result 7200000 second_report austin_analysis (one_case_db []) =
      (austin_case 7 0, 143 / 120) # []"
    by (simp add: second_report_search)
  have l: "0.85 < snd (austin_case 7 0, 143 / 120 :: real)"
    by simp
  from C10_duplicate_path_only_appends [OF second_report_run s l] s show ?thesis
    by (simp add: second_report_run one_case_db_fields link_update_def duplicate_update_def
        austin_case_def)
qed

text \<open>
  Claim C8. The link rows that resolving a post adds to \<^verbatim>\<open>related_cases\<close> come in both
  directions: for every added row from A to B there is an added row from B to A with
  the same relationship type and the same strength. (\<^verbatim>\<open>linkRelatedCases\<close> inserts both rows
  in one call, or neither when the call fails.)
\<close>

theorem C8_links_in_both_directions:
  assumes "createCaseFromSocialMedia now s an d = (r, d')"
  shows "grown (related_tbl d) (related_tbl d') \<and>
    (\<forall>x\<in>set (added (related_tbl d) (related_tbl d')).
       \<exists>y\<in>set (added (related_tbl d) (related_tbl d')).
         r_case_id y = related_case_id x \<and> related_case_id y = r_case_id x \<and>
         relationship_type y = relationship_type x \<and>
         relationship_strength y = relationship_strength x)"
  using assms
proof (cases rule: createCaseFromSocialMedia_cases)
  case (duplicate best rest d1)
  from attach_to_duplicate_frame(2) [OF duplicate(3)]
    findPotentialDuplicates_effect(5) [OF duplicate(1)]
  show ?thesis
    by simp
next
  case (new_case ps d1)
  from create_new_case_frame(5) [OF new_case(3)] findPotentialDuplicates_effect(5) [OF new_case(1)]
  obtain R where R: "related_tbl d' = related_tbl d @ R" "\<forall>x\<in>set R. mirror x \<in> set R"
    by auto
  have "\<exists>y\<in>set R. r_case_id y = related_case_id x \<and> related_case_id y = r_case_id x \<and>
         relationship_type y = relationship_type x \<and>
         relationship_strength y = relationship_strength x" if "x \<in> set R" for x
    using R(2) that by (intro bexI [of _ "mirror x"]) (simp_all add: mirror_def)
  with R(1) show ?thesis
    by simp
qed

theorem C8_links_in_both_directions_witness:
  "related_tbl (snd (createCaseFromSocialMedia 172800000 third_report modely_analysis
       (one_case_db []))) =
     [\<lparr>r_case_id = 8, related_case_id = 7, relationship_type = ''possible_duplicate'',
       relationship_strength = 4 / 5, is_ai_generated = True\<rparr>,
      \<lparr>r_case_id = 7, related_case_id = 8, relationship_type = ''possible_duplicate'',
       relationship_strength = 4 / 5, is_ai_generated = True\<rparr>]"
  using C8_links_in_both_directions [OF third_report_run]
  by (simp add: third_report_run related_pair_def)






lemma succeeded_append [simp]: "succeeded k (L1 @ L2) = succeeded k L1 + succeeded k L2"
  by (simp add: succeeded_def)

lemma succeeded_Nil [simp]: "succeeded k [] = 0"
  by (simp add: succeeded_def)

lemma succeeded_Cons [simp]:
  "succeeded k (e # L) = (if e = (k, False) then 1 else 0) + succeeded k L"
  by (simp add: succeeded_def)























lemma linkSourceToCase_returns:
  assumes "linkSourceToCase s cid d = (Inr sid, d')"
  shows "updates_tbl d' = updates_tbl d @ [link_update s cid sid] \<and>
       (\<exists>x\<in>set (sources_tbl d'). sr_id x = sid \<and> sr_platform x = platform s \<and>
          sr_platform_id x = platform_id s)"
  using assms
  by (auto simp: linkSourceToCase_def select_source_id_def createCaseUpdate_def repo_attempt_def
      new_source_row_def Let_def dest: single_stored
      split: list.splits if_splits option.splits prod.splits sum.splits)

lemma attach_to_duplicate_returns:
  assumes "attach_to_duplicate s an cid d = (Inr res, d')"
  shows "res = \<lparr>caseId = cid, isNewCase = False, isDuplicate = True\<rparr> \<and>
    (\<exists>sid. updates_tbl d' = updates_tbl d @ [link_update s cid sid, duplicate_update s cid] \<and>
       (\<exists>x\<in>set (sources_tbl d'). sr_id x = sid \<and> sr_platform x = platform s \<and>
          sr_platform_id x = platform_id s))"
  using assms
proof (cases rule: attach_to_duplicate_cases)
  case (link_failed e)
  then show ?thesis
    by simp
next
  case (linked sid d1 r3)
  let ?d2 = "add_media_if_any cid (s_id s) an d1"
  note l = linkSourceToCase_returns [OF linked(1)]
  note m = add_media_if_any_frame [of cid "s_id s" an d1]
  note u = createCaseUpdate_effect [OF linked(2)]
  from linked(3) obtain v where r3: "r3 = Inr v"
    by (cases r3) simp_all
  have res: "res = \<lparr>caseId = cid, isNewCase = False, isDuplicate = True\<rparr>"
    using linked(3) r3 by simp
  have so: "sources_tbl d' = sources_tbl d1"
    using m u(2) by simp
  have up: "updates_tbl d' = updates_tbl d @ [link_update s cid sid, duplicate_update s cid]"
    using u(6) m r3 l by simp
  from res so up l show ?thesis
    by auto
qed

lemma link_possible_duplicates_unfailed:
  "\<exists>L. log (link_possible_duplicates n ps d) = log d @ L \<and>
     ((InsertRelated, True) \<notin> set L \<longrightarrow>
        related_tbl (link_possible_duplicates n ps d) =
          related_tbl d @
          concat (map (\<lambda>p. related_pair n (c_id (fst p)) ''possible_duplicate'' (snd p))
            (filter (\<lambda>p. 0.6 < snd p) ps)))"
proof (induction ps arbitrary: d)
  case Nil
  then show ?case by simp
next
  case (Cons p ps)
  let ?d1 = "if snd p > 0.6
    then linkRelatedCases n (c_id (fst p)) ''possible_duplicate'' (snd p) d else d"
  from Cons.IH [of ?d1] obtain L where
    L: "log (link_possible_duplicates n ps ?d1) = log ?d1 @ L"
      "(InsertRelated, True) \<notin> set L \<longrightarrow>
        related_tbl (link_possible_duplicates n ps ?d1) =
          related_tbl ?d1 @
          concat (map (\<lambda>p. related_pair n (c_id (fst p)) ''possible_duplicate'' (snd p))
            (filter (\<lambda>p. 0.6 < snd p) ps))"
    by blast
  show ?case
  proof (cases "snd p > 0.6")
    case False
    with L show ?thesis
      by auto
  next
    case True
    obtain f e where a: "repo_attempt InsertRelated d = (f, e)"
      by force
    note ef = repo_attempt_effect [OF a]
    have d1: "log ?d1 = log d @ [(InsertRelated, f)]"
      "\<not> f \<longrightarrow> related_tbl ?d1 =
         related_tbl d @ related_pair n (c_id (fst p)) ''possible_duplicate'' (snd p)"
      using True a ef(5,7) by (simp_all add: linkRelatedCases_def)
    have "log (link_possible_duplicates n (p # ps) d) = log d @ ((InsertRelated, f) # L)"
      using L(1) d1(1) by simp
    moreover have "(InsertRelated, True) \<notin> set ((InsertRelated, f) # L) \<longrightarrow>
        related_tbl (link_possible_duplicates n (p # ps) d) =
          related_tbl d @
          concat (map (\<lambda>p. related_pair n (c_id (fst p)) ''possible_duplicate'' (snd p))
            (filter (\<lambda>p. 0.6 < snd p) (p # ps)))"
      using L(2) d1(2) True by auto
    ultimately show ?thesis
      by blast
  qed
qed

lemma create_new_case_returns:
  assumes "create_new_case now s an ps d = (Inr res, d')"
  shows "res = \<lparr>caseId = next_id d, isNewCase = True, isDuplicate = False\<rparr> \<and>
    cases_tbl d' = cases_tbl d @ [new_case_row (next_id d) now s an] \<and>
    ((InsertRelated, True) \<notin> set (added (log d) (log d')) \<longrightarrow>
       related_tbl d' = related_tbl d @
         concat (map (\<lambda>p. related_pair (next_id d) (c_id (fst p)) ''possible_duplicate'' (snd p))
           (filter (\<lambda>p. 0.6 < snd p) ps)))"
  using assms
proof (cases rule: create_new_case_cases)
  case insert_failed
  then show ?thesis
    by simp
next
  case (link_failed d1 e)
  then show ?thesis
    by simp
next
  case (created d1 sid d3)
  let ?n = "next_id d"
  let ?d4 = "add_media_if_any ?n (s_id s) an d3"
  note a = repo_attempt_effect [OF created(1)]
  note lf = linkSourceToCase_frame [OF created(2)]
  note m = add_media_if_any_frame [of ?n "s_id s" an d3]
  note k = link_possible_duplicates_frame [of ?n ps ?d4]
  have c: "cases_tbl d' = cases_tbl d @ [new_case_row ?n now s an]"
    using created(3) k m lf(1) by simp
  from linkSourceToCase_log [OF created(2)] obtain L1 where L1: "log d3 = log d1 @ L1"
    by auto
  from add_media_if_any_log [of ?n "s_id s" an d3] obtain L2 where L2: "log ?d4 = log d3 @ L2"
    by blast
  from link_possible_duplicates_unfailed [of ?n ps ?d4] obtain L3 where
    L3: "log d' = log ?d4 @ L3"
      "(InsertRelated, True) \<notin> set L3 \<longrightarrow>
        related_tbl d' = related_tbl ?d4 @
          concat (map (\<lambda>p. related_pair ?n (c_id (fst p)) ''possible_duplicate'' (snd p))
            (filter (\<lambda>p. 0.6 < snd p) ps))"
    using created(3) by blast
  have lg: "added (log d) (log d') = (InsertCase, False) # L1 @ L2 @ L3"
    using a(7) L1 L2 L3(1) by simp
  have re: "related_tbl ?d4 = related_tbl d"
    using m lf(3) a(5) by simp
  from created(4) c lg L3(2) re show ?thesis
    by simp
qed

text \<open>
  The decision policy in the runs in which the repository accepts the link rows. The first
  candidate of the search is a highest-scoring one. In a run in which no repository call
  fails, and more generally in every run that returns a result and in which no insert of
  link rows failed: if the first candidate scores above 0.85, the source is attached to
  that case by a case update that references the stored source row, no case is inserted
  and the result is \<open>isDuplicate\<close>, not \<open>isNewCase\<close>. Otherwise exactly one case is
  inserted, the result is \<open>isNewCase\<close>, not \<open>isDuplicate\<close>, and every candidate scoring
  above 0.6 (which is then at most 0.85) is linked to the new case by two rows, one in
  each direction, of type \<open>possible_duplicate\<close> and with its score as strength.
\<close>

lemma decision_policy_with_accepted_links:
  assumes "createCaseFromSocialMedia now s an d = (r, d')"
    and "faults d = [] \<or>
      (\<not> isl r \<and> (InsertRelated, True) \<notin> set (added (log d) (log d')))"
  shows "(\<forall>p\<in>set (search_result now s an d). snd p \<le> snd (hd (search_result now s an d))) \<and>
    (search_result now s an d \<noteq> [] \<and> 0.85 < snd (hd (search_result now s an d)) \<longrightarrow>
       r = Inr \<lparr>caseId = c_id (fst (hd (search_result now s an d))),
                isNewCase = False, isDuplicate = True\<rparr> \<and>
       cases_tbl d' = cases_tbl d \<and>
       (\<exists>u\<in>set (added (updates_tbl d) (updates_tbl d')).
          u_case_id u = c_id (fst (hd (search_result now s an d))) \<and>
          (\<exists>x\<in>set (sources_tbl d'). u_source_id u = Some (sr_id x) \<and>
             sr_platform x = platform s \<and> sr_platform_id x = platform_id s))) \<and>
    (\<not> (search_result now s an d \<noteq> [] \<and> 0.85 < snd (hd (search_result now s an d))) \<longrightarrow>
       r = Inr \<lparr>caseId = next_id d, isNewCase = True, isDuplicate = False\<rparr> \<and>
       cases_tbl d' = cases_tbl d @ [new_case_row (next_id d) now s an] \<and>
       (\<forall>p\<in>set (search_result now s an d). 0.6 < snd p \<longrightarrow>
          snd p \<le> 0.85 \<and>
          \<lparr>r_case_id = next_id d, related_case_id = c_id (fst p),
            relationship_type = ''possible_duplicate'', relationship_strength = snd p,
            is_ai_generated = True\<rparr> \<in> set (added (related_tbl d) (related_tbl d')) \<and>
          \<lparr>r_case_id = c_id (fst p), related_case_id = next_id d,
            relationship_type = ''possible_duplicate'', relationship_strength = snd p,
            is_ai_generated = True\<rparr> \<in> set (added (related_tbl d) (related_tbl d'))))"
  using assms(1)
proof (cases rule: createCaseFromSocialMedia_cases)
  case (duplicate best rest d1)
  note f = findPotentialDuplicates_effect [OF duplicate(1)]
  have sr: "search_result now s an d = best # rest"
    using search_result_eq [OF duplicate(1)] .
  have top: "\<forall>p\<in>set (best # rest). snd p \<le> snd best"
    using findPotentialDuplicates_sorted [OF duplicate(1)] .
  note af = attach_to_duplicate_frame [OF duplicate(3)]
  have key: "r = Inr \<lparr>caseId = c_id (fst best), isNewCase = False, isDuplicate = True\<rparr> \<and>
    (\<exists>sid. updates_tbl d' = updates_tbl d1 @ [link_update s (c_id (fst best)) sid,
        duplicate_update s (c_id (fst best))] \<and>
       (\<exists>x\<in>set (sources_tbl d'). sr_id x = sid \<and> sr_platform x = platform s \<and>
          sr_platform_id x = platform_id s))"
  proof (cases "faults d = []")
    case True
    then have f1: "faults d1 = []"
      using f(8) by simp
    from attach_to_duplicate_ok(2,3) [OF duplicate(3) f1] show ?thesis
      by simp
  next
    case False
    with assms(2) obtain res where res: "r = Inr res"
      by (cases r) auto
    from attach_to_duplicate_returns [OF duplicate(3) [unfolded res]] res show ?thesis
      by simp
  qed
  then obtain sid where sid:
    "updates_tbl d' = updates_tbl d @ [link_update s (c_id (fst best)) sid,
        duplicate_update s (c_id (fst best))]"
    "\<exists>x\<in>set (sources_tbl d'). sr_id x = sid \<and> sr_platform x = platform s \<and>
          sr_platform_id x = platform_id s"
    using f(3) by auto
  have u: "\<exists>u\<in>set (added (updates_tbl d) (updates_tbl d')).
          u_case_id u = c_id (fst best) \<and>
          (\<exists>x\<in>set (sources_tbl d'). u_source_id u = Some (sr_id x) \<and>
             sr_platform x = platform s \<and> sr_platform_id x = platform_id s)"
    using sid by (intro bexI [of _ "link_update s (c_id (fst best)) sid"])
      (auto simp: link_update_def)
  have c1: "\<forall>p\<in>set (search_result now s an d). snd p \<le> snd (hd (search_result now s an d))"
    using top by (simp only: sr list.sel)
  have dup: "search_result now s an d \<noteq> [] \<and> 0.85 < snd (hd (search_result now s an d))"
    using duplicate(2) by (simp add: sr)
  have c2: "r = Inr \<lparr>caseId = c_id (fst (hd (search_result now s an d))),
                isNewCase = False, isDuplicate = True\<rparr> \<and>
       cases_tbl d' = cases_tbl d \<and>
       (\<exists>u\<in>set (added (updates_tbl d) (updates_tbl d')).
          u_case_id u = c_id (fst (hd (search_result now s an d))) \<and>
          (\<exists>x\<in>set (sources_tbl d'). u_source_id u = Some (sr_id x) \<and>
             sr_platform x = platform s \<and> sr_platform_id x = platform_id s))"
    using key af(1) f(1) u by (simp only: sr list.sel simp_thms)
  from c1 dup c2 show ?thesis
    by blast
next
  case (new_case ps d1)
  note f = findPotentialDuplicates_effect [OF new_case(1)]
  have sr: "search_result now s an d = ps"
    using search_result_eq [OF new_case(1)] .
  have top: "\<forall>p\<in>set ps. snd p \<le> snd (hd ps)"
  proof (cases ps)
    case Nil
    then show ?thesis by simp
  next
    case (Cons b rest)
    with findPotentialDuplicates_sorted [of now _ _ _ d b rest d1] new_case(1) show ?thesis
      by simp
  qed
  have nd: "\<not> (ps \<noteq> [] \<and> 0.85 < snd (hd ps))"
    using new_case(2) by (cases ps) auto
  have key: "r = Inr \<lparr>caseId = next_id d1, isNewCase = True, isDuplicate = False\<rparr> \<and>
    cases_tbl d' = cases_tbl d1 @ [new_case_row (next_id d1) now s an] \<and>
    related_tbl d' = related_tbl d1 @
       concat (map (\<lambda>p. related_pair (next_id d1) (c_id (fst p)) ''possible_duplicate'' (snd p))
         (filter (\<lambda>p. 0.6 < snd p) ps))"
  proof (cases "faults d = []")
    case True
    then have f1: "faults d1 = []"
      using f(8) by simp
    from create_new_case_ok(2,3,4) [OF new_case(3) f1] show ?thesis
      by simp
  next
    case False
    with assms(2) obtain res where res: "r = Inr res"
      and nf: "(InsertRelated, True) \<notin> set (added (log d) (log d'))"
      by (cases r) auto
    from f(7) obtain q where q: "log d1 = log d @ [(SelectCases, q)]"
      by auto
    from create_new_case_log [OF new_case(3)] obtain L where L: "log d' = log d1 @ L"
      by blast
    have "added (log d) (log d') = (SelectCases, q) # added (log d1) (log d')"
      using q L by (simp add: added_def)
    with nf have "(InsertRelated, True) \<notin> set (added (log d1) (log d'))"
      by simp
    with create_new_case_returns [OF new_case(3) [unfolded res]] res show ?thesis
      by simp
  qed
  have rel: "added (related_tbl d) (related_tbl d') =
      concat (map (\<lambda>p. related_pair (next_id d) (c_id (fst p)) ''possible_duplicate'' (snd p))
         (filter (\<lambda>p. 0.6 < snd p) ps))"
    using key f(5,6) by simp
  have lk: "\<lparr>r_case_id = next_id d, related_case_id = c_id (fst p),
            relationship_type = ''possible_duplicate'', relationship_strength = snd p,
            is_ai_generated = True\<rparr> \<in> set (added (related_tbl d) (related_tbl d')) \<and>
          \<lparr>r_case_id = c_id (fst p), related_case_id = next_id d,
            relationship_type = ''possible_duplicate'', relationship_strength = snd p,
            is_ai_generated = True\<rparr> \<in> set (added (related_tbl d) (related_tbl d'))"
    if "p \<in> set ps" "0.6 < snd p" for p
  proof -
    from that have "p \<in> set (filter (\<lambda>p. 0.6 < snd p) ps)"
      by simp
    then have "set (related_pair (next_id d) (c_id (fst p)) ''possible_duplicate'' (snd p))
        \<subseteq> set (added (related_tbl d) (related_tbl d'))"
      unfolding rel by auto
    then show ?thesis
      by (simp add: related_pair_def)
  qed
  have c1: "\<forall>p\<in>set (search_result now s an d). snd p \<le> snd (hd (search_result now s an d))"
    using top by (simp only: sr)
  have ndup: "\<not> (search_result now s an d \<noteq> [] \<and> 0.85 < snd (hd (search_result now s an d)))"
    unfolding sr by (rule nd)
  have c3: "r = Inr \<lparr>caseId = next_id d, isNewCase = True, isDuplicate = False\<rparr> \<and>
       cases_tbl d' = cases_tbl d @ [new_case_row (next_id d) now s an]"
    using key f(1,6) by simp
  have c4: "\<forall>p\<in>set (search_result now s an d). 0.6 < snd p \<longrightarrow>
          snd p \<le> 0.85 \<and>
          \<lparr>r_case_id = next_id d, related_case_id = c_id (fst p),
            relationship_type = ''possible_duplicate'', relationship_strength = snd p,
            is_ai_generated = True\<rparr> \<in> set (added (related_tbl d) (related_tbl d')) \<and>
          \<lparr>r_case_id = c_id (fst p), related_case_id = next_id d,
            relationship_type = ''possible_duplicate'', relationship_strength = snd p,
            is_ai_generated = True\<rparr> \<in> set (added (related_tbl d) (related_tbl d'))"
    using lk new_case(2) unfolding sr by blast
  from c1 ndup c3 c4 show ?thesis
    by blast
qed

text \<open>The third report when the repository rejects the insert of the link rows: the
  new case, the source and the case update are stored, no link row is, and the call
  returns the new case as if the link had been made.\<close>

lemma third_report_run_link_rejected:
  "createCaseFromSocialMedia 172800000 third_report modely_analysis
       (one_case_db [False, False, False, False, False, True]) =
     (Inr \<lparr>caseId = 8, isNewCase = True, isDuplicate = False\<rparr>,
      \<lparr>cases_tbl = [austin_case 7 0, new_case_row 8 172800000 third_report modely_analysis],
       sources_tbl = [new_source_row 9 third_report],
       updates_tbl = [link_update third_report 8 9],
       media_tbl = [], related_tbl = [], next_id = 10, faults = [],
       log = [(SelectCases, False), (InsertCase, False), (SelectSource, False),
              (InsertSource, False), (InsertUpdate, False), (InsertRelated, True)]\<rparr>)"
  by (simp add: createCaseFromSocialMedia_def third_report_type third_report_damage
      modely_details modely_search_location findPotentialDuplicates_def repo_attempt_def
      candidate_rows_upd modely_candidates modely_case_score one_case_db_fields Let_def
      create_new_case_def linkSourceToCase_def select_source_id_def createCaseUpdate_def
      add_media_if_any_def modely_no_media linkRelatedCases_def)

text \<open>
  Claim C1 says that every candidate scoring above 0.6 and at most 0.85 is linked to the
  new case in both directions. \<^verbatim>\<open>linkRelatedCases\<close> never inspects the result of its insert,
  and the type \<open>possible_duplicate\<close> it is called with is not among the values the schema
  admits in \<^verbatim>\<open>related_cases.relationship_type\<close>. For the report of a keyed Model Y in
  Austin, two days after a stored case of a keyed Model 3 in Austin, the one candidate
  scores 0.8; when the repository rejects the link rows, a new case is created and
  returned as \<open>isNewCase\<close>, no error is raised, and no link row is stored.
\<close>

theorem C1_rejected_link_rows_go_unnoticed:
  "''possible_duplicate'' \<notin> set schema_relationship_types \<and>
   search_result 172800000 third_report modely_analysis
       (one_case_db [False, False, False, False, False, True]) = [(austin_case 7 0, 4 / 5)] \<and>
   fst (createCaseFromSocialMedia 172800000 third_report modely_analysis
       (one_case_db [False, False, False, False, False, True])) =
     Inr \<lparr>caseId = 8, isNewCase = True, isDuplicate = False\<rparr> \<and>
   related_tbl (snd (createCaseFromSocialMedia 172800000 third_report modely_analysis
       (one_case_db [False, False, False, False, False, True]))) = [] \<and>
   added (log (one_case_db [False, False, False, False, False, True]))
     (log (snd (createCaseFromSocialMedia 172800000 third_report modely_analysis
       (one_case_db [False, False, False, False, False, True])))) =
     [(SelectCases, False), (InsertCase, False), (SelectSource, False),
      (InsertSource, False), (InsertUpdate, False), (InsertRelated, True)]"
  by (simp add: schema_relationship_types_def third_report_search
      third_report_run_link_rejected one_case_db_fields added_def)

subsection \<open>Resolving the same source twice\<close>

lemma lower_night: "toLowerCase ''Tesla keyed last night'' = ''tesla keyed last night''"
  by (simp add: toLowerCase_def lower_char_def)








lemma stored_append:
  "sources_tbl d' = sources_tbl d @ [new_source_row i s] \<Longrightarrow>
     stored s d' = stored s d @ [new_source_row i s]"
  by (simp add: stored_def new_source_row_def)








text \<open>\<^verbatim>\<open>storeSocialMediaSource\<close> is idempotent on the table of sources when no call fails.\<close>

lemma storeSocialMediaSource_ok:
  assumes "storeSocialMediaSource s d = (r, d')" and "faults d = []"
  shows "faults d' = []"
    "length (stored s d) = 1 \<Longrightarrow> sources_tbl d' = sources_tbl d"
    "length (stored s d) = 0 \<Longrightarrow> sources_tbl d' = sources_tbl d @ [new_source_row (next_id d) s]"
  using assms
  by (auto simp: storeSocialMediaSource_def select_source_id_def repo_attempt_def stored_def
      split: list.splits if_splits option.splits prod.splits)

lemma storeSocialMediaSource_twice:
  assumes "storeSocialMediaSource s d = (r1, d1)" and "storeSocialMediaSource s d1 = (r2, d2)"
    and "faults d = []" and "length (stored s d) \<le> 1"
  shows "sources_tbl d2 = sources_tbl d1 \<and> length (stored s d2) = 1"
proof -
  note a = storeSocialMediaSource_ok [OF assms(1,3)]
  note b = storeSocialMediaSource_ok [OF assms(2) a(1)]
  have "length (stored s d1) = 1"
  proof (cases "length (stored s d) = 1")
    case True
    from a(2) [OF True] stored_cong [of d1 d s] True show ?thesis
      by simp
  next
    case False
    with assms(4) have "length (stored s d) = 0"
      by linarith
    from stored_append [OF a(3) [OF this]] this show ?thesis
      by simp
  qed
  with b(2) stored_cong [of d2 d1 s] show ?thesis
    by simp
qed

end
